theory Spec2Isabelle
  imports Main
begin

unbundle bit_operations_syntax

section \<open>Go library functions used by the hostname validator\<close>

text \<open>
  A Go \<^verbatim>\<open>string\<close> is a sequence of bytes and \<^verbatim>\<open>len\<close> counts bytes, so a Go
  string is a \<^typ>\<open>string\<close> here (a list of 8-bit characters) and \<^verbatim>\<open>len\<close> is
  \<^const>\<open>length\<close>. A \<^verbatim>\<open>rune\<close> is a signed 32-bit code point; no operation below
  overflows it, so runes are \<^typ>\<open>int\<close>.
\<close>

type_synonym rune = int

subsection \<open>Package \<^verbatim>\<open>unicode/utf8\<close>\<close>

definition RuneError :: rune where
  "RuneError = 0xFFFD"

definition MaxRune :: rune where
  "MaxRune = 0x10FFFF"

text \<open>
  The table \<^verbatim>\<open>first\<close>: information about the first byte of an encoding
  (\<^verbatim>\<open>as\<close> = 0xF0 for ASCII, \<^verbatim>\<open>xx\<close> = 0xF1 for an invalid first byte,
  otherwise the index of the accept range in the high nibble and the size in the low one).
\<close>

definition first :: "int \<Rightarrow> int" where
  "first b =
     (if b < 0x80 then 0xF0
      else if b < 0xC2 then 0xF1
      else if b < 0xE0 then 0x02
      else if b = 0xE0 then 0x13
      else if b < 0xED then 0x03
      else if b = 0xED then 0x23
      else if b < 0xF0 then 0x03
      else if b = 0xF0 then 0x34
      else if b < 0xF4 then 0x04
      else if b = 0xF4 then 0x44
      else 0xF1)"

text \<open>The table \<^verbatim>\<open>acceptRanges\<close>: the bounds of the second byte.\<close>

definition acceptRanges :: "int \<Rightarrow> int \<times> int" where
  "acceptRanges i =
     (if i = 0 then (0x80, 0xBF)
      else if i = 1 then (0xA0, 0xBF)
      else if i = 2 then (0x80, 0x9F)
      else if i = 3 then (0x90, 0xBF)
      else if i = 4 then (0x80, 0x8F)
      else (0, 0))"

text \<open>
  \<^verbatim>\<open>utf8.DecodeRuneInString\<close>: the first rune of \<open>s\<close> and its width in bytes; an
  invalid encoding gives \<^verbatim>\<open>(RuneError, 1)\<close>, the empty string \<^verbatim>\<open>(RuneError, 0)\<close>.
\<close>

definition DecodeRuneInString :: "string \<Rightarrow> rune \<times> nat" where
  "DecodeRuneInString s =
     (let n = length s in
      if n < 1 then (RuneError, 0)
      else
        let s0 = of_char (s ! 0) :: int; x = first s0 in
        if x \<ge> 0xF0 then (if x = 0xF0 then s0 else RuneError, 1)
        else
          let sz = nat (x AND 7); accept = acceptRanges (drop_bit 4 x) in
          if n < sz then (RuneError, 1)
          else
            let s1 = of_char (s ! 1) :: int in
            if s1 < fst accept \<or> snd accept < s1 then (RuneError, 1)
            else if sz \<le> 2 then (push_bit 6 (s0 AND 0x1F) OR (s1 AND 0x3F), 2)
            else
              let s2 = of_char (s ! 2) :: int in
              if s2 < 0x80 \<or> 0xBF < s2 then (RuneError, 1)
              else if sz \<le> 3 then
                (push_bit 12 (s0 AND 0x0F) OR push_bit 6 (s1 AND 0x3F) OR (s2 AND 0x3F), 3)
              else
                let s3 = of_char (s ! 3) :: int in
                if s3 < 0x80 \<or> 0xBF < s3 then (RuneError, 1)
                else
                  (push_bit 18 (s0 AND 0x07) OR push_bit 12 (s1 AND 0x3F)
                     OR push_bit 6 (s2 AND 0x3F) OR (s3 AND 0x3F), 4))"

text \<open>
  \<^verbatim>\<open>utf8.AppendRune\<close> for a rune \<open>r \<ge> 0\<close>: the bytes of its encoding; a surrogate
  or a rune beyond \<^verbatim>\<open>MaxRune\<close> is written as \<^verbatim>\<open>RuneError\<close>. The conversion
  \<^verbatim>\<open>byte(x)\<close> keeps the low eight bits, as \<^const>\<open>char_of\<close> does.
\<close>

definition EncodeRune :: "rune \<Rightarrow> string" where
  "EncodeRune r =
     (if r \<le> 0x7F then [char_of r]
      else if r \<le> 0x7FF then
        [char_of (0xC0 OR drop_bit 6 r), char_of (0x80 OR (r AND 0x3F))]
      else
        let r' = (if r > MaxRune \<or> (0xD800 \<le> r \<and> r \<le> 0xDFFF) then RuneError else r) in
        if r > MaxRune \<or> (0xD800 \<le> r \<and> r \<le> 0xDFFF) \<or> r \<le> 0xFFFF then
          [char_of (0xE0 OR drop_bit 12 r'), char_of (0x80 OR (drop_bit 6 r' AND 0x3F)),
           char_of (0x80 OR (r' AND 0x3F))]
        else
          [char_of (0xF0 OR drop_bit 18 r), char_of (0x80 OR (drop_bit 12 r AND 0x3F)),
           char_of (0x80 OR (drop_bit 6 r AND 0x3F)), char_of (0x80 OR (r AND 0x3F))])"

subsection \<open>Package \<^verbatim>\<open>unicode\<close>\<close>

text \<open>
  \<^verbatim>\<open>unicode.ToLower\<close>: ASCII is handled in the function itself; any other rune is
  looked up in the case tables of the Go distribution (\<^verbatim>\<open>To(LowerCase, r)\<close>),
  which are the parameter \<open>tab\<close>.
\<close>

definition unicode_ToLower :: "(rune \<Rightarrow> rune) \<Rightarrow> rune \<Rightarrow> rune" where
  "unicode_ToLower tab r =
     (if r \<le> 0x7F then (if 0x41 \<le> r \<and> r \<le> 0x5A then r + (0x61 - 0x41) else r)
      else tab r)"

subsection \<open>Package \<^verbatim>\<open>strings\<close>\<close>

definition HasPrefix :: "string \<Rightarrow> string \<Rightarrow> bool" where
  "HasPrefix s pre = (length s \<ge> length pre \<and> take (length pre) s = pre)"

definition HasSuffix :: "string \<Rightarrow> string \<Rightarrow> bool" where
  "HasSuffix s suf = (length s \<ge> length suf \<and> drop (length s - length suf) s = suf)"

text \<open>
  \<^verbatim>\<open>strings.Index\<close>: the index of the first instance of \<open>substr\<close> in \<open>s\<close>;
  Go's \<^verbatim>\<open>-1\<close> is \<^const>\<open>None\<close>.
\<close>

fun Index :: "string \<Rightarrow> string \<Rightarrow> nat option" where
  "Index [] substr = (if substr = [] then Some 0 else None)"
| "Index (c # cs) substr =
     (if HasPrefix (c # cs) substr then Some 0 else map_option Suc (Index cs substr))"

definition Contains :: "string \<Rightarrow> string \<Rightarrow> bool" where
  "Contains s substr = (Index s substr \<noteq> None)"

text \<open>
  \<^verbatim>\<open>strings.Map\<close>: every rune of \<open>s\<close> (an invalid byte reads as
  \<^verbatim>\<open>RuneError\<close>, one byte wide) is replaced by its image, written in UTF-8; a
  negative image drops the rune.
\<close>

function Map :: "(rune \<Rightarrow> rune) \<Rightarrow> string \<Rightarrow> string" where
  "Map mapping s =
     (if s = [] then []
      else
        (let r = mapping (fst (DecodeRuneInString s)) in
         if r \<ge> 0 then EncodeRune r else [])
        @ Map mapping (drop (snd (DecodeRuneInString s)) s))"
  by pat_completeness auto
termination
proof (relation "measure (\<lambda>(mapping, s). length s)")
  show "wf (measure (\<lambda>(mapping, s). length s))"
    by simp
next
  fix mapping :: "rune \<Rightarrow> rune" and s :: string
  assume "s \<noteq> []"
  moreover from this have "1 \<le> snd (DecodeRuneInString s)"
    by (simp add: DecodeRuneInString_def Let_def)
  ultimately show "((mapping, drop (snd (DecodeRuneInString s)) s), (mapping, s))
      \<in> measure (\<lambda>(mapping, s). length s)"
    by (cases s) auto
qed

declare Map.simps [simp del]

text \<open>
  \<^verbatim>\<open>strings.ToLower\<close>; the shortcut that the library takes for a string of ASCII
  bytes returns the same string as this.
\<close>

definition ToLower :: "(rune \<Rightarrow> rune) \<Rightarrow> string \<Rightarrow> string" where
  "ToLower tab s = Map (unicode_ToLower tab) s"

text \<open>
  \<^verbatim>\<open>explode\<close>, which is \<^verbatim>\<open>strings.Split(s, "")\<close>: one string per UTF-8
  sequence of \<open>s\<close>, an invalid byte on its own.
\<close>

function explode :: "string \<Rightarrow> string list" where
  "explode s =
     (if s = [] then []
      else take (snd (DecodeRuneInString s)) s # explode (drop (snd (DecodeRuneInString s)) s))"
  by pat_completeness auto
termination
proof (relation "measure length")
  show "wf (measure length)"
    by simp
next
  fix s :: string
  assume "s \<noteq> []"
  moreover from this have "1 \<le> snd (DecodeRuneInString s)"
    by (simp add: DecodeRuneInString_def Let_def)
  ultimately show "(drop (snd (DecodeRuneInString s)) s, s) \<in> measure length"
    by (cases s) auto
qed

declare explode.simps [simp del]

text \<open>
  \<^verbatim>\<open>strings.Split\<close>: \<open>s\<close> cut at every instance of \<open>sep\<close>, found from left to
  right; with an empty separator it is \<^const>\<open>explode\<close>.
\<close>

function Split :: "string \<Rightarrow> string \<Rightarrow> string list" where
  "Split s sep =
     (if sep = [] then explode s
      else
        (case Index s sep of
           None \<Rightarrow> [s]
         | Some m \<Rightarrow> take m s # Split (drop (m + length sep) s) sep))"
  by pat_completeness auto
termination
proof (relation "measure (\<lambda>(s, sep). length s)")
  show "wf (measure (\<lambda>(s, sep). length s))"
    by simp
next
  fix s sep :: string and m :: nat
  assume "sep \<noteq> []" and "Index s sep = Some m"
  then show "((drop (m + length sep) s, sep), (s, sep)) \<in> measure (\<lambda>(s, sep). length s)"
    by (cases s) auto
qed

declare Split.simps [simp del]

text \<open>
  \<^verbatim>\<open>strings.Join\<close>, the inverse of \<^const>\<open>Split\<close>; the validator does not call
  it, it states below what the parts of a name are.
\<close>

fun Join :: "string list \<Rightarrow> string \<Rightarrow> string" where
  "Join [] sep = []"
| "Join [a] sep = a"
| "Join (a # b # rest) sep = a @ sep @ Join (b # rest) sep"

section \<open>The hostname validator (\<^verbatim>\<open>irc/net.go\<close>)\<close>

definition allowedHostnameChars :: string where
  "allowedHostnameChars = ''abcdefghijklmnopqrstuvwxyz1234567890-.''"

text \<open>The loop over the parts of the name: the first bad part returns false.\<close>

fun parts_loop :: "string list \<Rightarrow> bool" where
  "parts_loop [] = True"
| "parts_loop (part # rest) =
     (if length part < 1 \<or> length part > 63 \<or> HasPrefix part ''-'' \<or> HasSuffix part ''-''
      then False
      else parts_loop rest)"

text \<open>The loop over the characters of the lowered name.\<close>

fun chars_loop :: "string list \<Rightarrow> bool" where
  "chars_loop [] = True"
| "chars_loop (char # rest) =
     (if \<not> Contains allowedHostnameChars char then False else chars_loop rest)"

definition IsHostname :: "(rune \<Rightarrow> rune) \<Rightarrow> string \<Rightarrow> bool" where
  "IsHostname tab name =
     (if \<not> Contains name ''.'' \<or> length name < 1 \<or> length name > 253 then False
      else if \<not> parts_loop (Split name ''.'') then False
      else chars_loop (Split (ToLower tab name) ''''))"

text \<open>
  The ASCII-lowercased form of a string: the bytes \<open>A\<close> to \<open>Z\<close> become \<open>a\<close> to
  \<open>z\<close>, every other byte stays. The validator does not call it; the properties
  below compare with it.
\<close>

definition ascii_lower :: "char \<Rightarrow> char" where
  "ascii_lower c =
     (if 0x41 \<le> (of_char c :: nat) \<and> (of_char c :: nat) \<le> 0x5A
      then char_of (of_char c + 0x20 :: nat) else c)"

definition ascii_lowercase :: "string \<Rightarrow> string" where
  "ascii_lowercase s = map ascii_lower s"

section \<open>Errors, aborts and the log\<close>

text \<open>
  A Go \<^verbatim>\<open>error\<close> value is its message (\<^verbatim>\<open>err.Error()\<close>); a nil error is
  \<^const>\<open>None\<close>. A function that returns a value and an
  error returns a pair, as in Go.
\<close>

datatype error = Error (error_message: string)

text \<open>
  A call that does not return: \<^verbatim>\<open>log.Fatal\<close> prints its message and exits the
  process; reading a field through a nil pointer and indexing a slice out of range
  panic.
\<close>

datatype abort = Fatal string | NilPointerDereference | IndexOutOfRange

text \<open>The lines written by \<^verbatim>\<open>log.Println\<close>, oldest first.\<close>

type_synonym log = "string list"

section \<open>The address resolver (\<^verbatim>\<open>irc/net.go\<close>)\<close>

text \<open>The interface \<^verbatim>\<open>net.Addr\<close>: its two methods.\<close>

record net_Addr =
  Addr_Network :: string
  Addr_String :: string

text \<open>
  \<^verbatim>\<open>net.SplitHostPort\<close> (host, port, error) and \<^verbatim>\<open>net.LookupAddr\<close> (names,
  error, a query to the resolver) are parameters.
\<close>

definition IPString :: "(string \<Rightarrow> string \<times> string \<times> error option) \<Rightarrow> net_Addr \<Rightarrow> string" where
  "IPString SplitHostPort addr =
     (let addrStr = Addr_String addr;
          (ipaddr, port, err) = SplitHostPort addrStr
      in if err \<noteq> None then addrStr else ipaddr)"

text \<open>
  In \<^verbatim>\<open>err != nil || !IsHostname(names[0])\<close> the index expression is evaluated
  only when the error is nil; on an empty slice it panics.
\<close>

definition LookupHostname ::
  "(string \<Rightarrow> string list \<times> error option) \<Rightarrow> (rune \<Rightarrow> rune) \<Rightarrow> string \<Rightarrow> abort + string" where
  "LookupHostname LookupAddr tab addr =
     (let (names, err) = LookupAddr addr in
      if err \<noteq> None then Inr addr
      else
        (case names of
           [] \<Rightarrow> Inl IndexOutOfRange
         | name0 # _ \<Rightarrow> if \<not> IsHostname tab name0 then Inr addr else Inr name0))"

definition AddrLookupHostname ::
  "(string \<Rightarrow> string \<times> string \<times> error option) \<Rightarrow> (string \<Rightarrow> string list \<times> error option) \<Rightarrow>
     (rune \<Rightarrow> rune) \<Rightarrow> net_Addr \<Rightarrow> abort + string" where
  "AddrLookupHostname SplitHostPort LookupAddr tab addr =
     LookupHostname LookupAddr tab (IPString SplitHostPort addr)"

section \<open>The configuration (\<^verbatim>\<open>irc/config.go\<close>)\<close>

subsection \<open>The types\<close>

text \<open>
  Every struct is a record; the fields of an anonymous struct carry the name of the
  field that holds it, so that \<^verbatim>\<open>Network.Name\<close> and \<^verbatim>\<open>Server.Name\<close> stay apart.
  A Go \<^verbatim>\<open>int\<close> is only compared here, never computed with, so it is \<^typ>\<open>int\<close>.
  A map is the list of its entries in the order in which \<^verbatim>\<open>range\<close> visits them
  (any order is possible); a pointer is an \<^typ>\<open>'a option\<close>, nil being
  \<^const>\<open>None\<close>.
\<close>

record PassConfig =
  Password :: string

record TLSListenConfig =
  Cert :: string
  Key :: string

text \<open>\<^verbatim>\<open>tls.Config\<close>: the one field that the code sets; \<open>'cert\<close> is \<^verbatim>\<open>tls.Certificate\<close>.\<close>

record 'cert tls_Config =
  Certificates :: "'cert list"

record Mailto_TLS_struct =
  TLS_Enabled :: bool
  TLS_InsecureSkipVerify :: bool
  TLS_ServerName :: string

record Mailto_struct =
  Mailto_Server :: string
  Mailto_Port :: int
  Mailto_TLS :: Mailto_TLS_struct
  Mailto_Username :: string
  Mailto_Password :: string
  Mailto_Sender :: string
  Mailto_VerifyMessageSubject :: string
  Mailto_VerifyMessage :: string

record Callbacks_struct =
  Callbacks_Mailto :: Mailto_struct

record AccountRegistrationConfig =
  Enabled :: bool
  EnabledCallbacks :: "string list"
  Callbacks :: Callbacks_struct

record Network_struct =
  Network_Name :: string

record Server_struct =
  Server_PassConfig :: PassConfig
  Server_Password :: string
  Server_Name :: string
  Server_Listen :: "string list"
  Server_Wslisten :: string
  Server_TLSListeners :: "(string \<times> TLSListenConfig option) list"
  Server_CheckIdent :: bool
  Server_Log :: string
  Server_MOTD :: string
  Server_ProxyAllowedFrom :: "string list"

record Datastore_struct =
  Datastore_Path :: string

record Registration_struct =
  Registration_Accounts :: AccountRegistrationConfig

record Limits_struct =
  NickLen :: int
  ChannelLen :: int
  AwayLen :: int
  KickLen :: int
  TopicLen :: int
  WhowasEntries :: nat

record Config =
  Network :: Network_struct
  Server :: Server_struct
  Datastore :: Datastore_struct
  Registration :: Registration_struct
  Operator :: "(string \<times> PassConfig option) list"
  Limits :: Limits_struct

subsection \<open>The methods of the entries\<close>

text \<open>
  \<^verbatim>\<open>TLSListenConfig.Config\<close>; \<^verbatim>\<open>tls.LoadX509KeyPair\<close> reads the two files and is
  a parameter. The receiver is a pointer, read for \<^verbatim>\<open>conf.Cert\<close>.
\<close>

definition TLSListenConfig_Config ::
  "(string \<Rightarrow> string \<Rightarrow> 'cert \<times> error option) \<Rightarrow> TLSListenConfig option \<Rightarrow>
     abort + ('cert tls_Config option \<times> error option)" where
  "TLSListenConfig_Config LoadX509KeyPair conf =
     (case conf of
        None \<Rightarrow> Inl NilPointerDereference
      | Some c \<Rightarrow>
          (let (cert, err) = LoadX509KeyPair (Cert c) (Key c) in
           if err \<noteq> None then Inr (None, Some (Error ''tls cert+key: invalid pair''))
           else Inr (Some \<lparr>Certificates = [cert]\<rparr>, err)))"

text \<open>
  \<^verbatim>\<open>PassConfig.PasswordBytes\<close>; \<^verbatim>\<open>DecodePassword\<close> (\<^verbatim>\<open>irc/password.go\<close>) is
  a parameter.
\<close>

definition PasswordBytes ::
  "(string \<Rightarrow> string \<times> error option) \<Rightarrow> PassConfig option \<Rightarrow> abort + string" where
  "PasswordBytes DecodePassword conf =
     (case conf of
        None \<Rightarrow> Inl NilPointerDereference
      | Some c \<Rightarrow>
          (let (bytes, err) = DecodePassword (Password c) in
           (case err of
              Some e \<Rightarrow> Inl (Fatal (''decode password error: '' @ error_message e))
            | None \<Rightarrow> Inr bytes)))"

subsection \<open>The derived maps\<close>

text \<open>
  \<^verbatim>\<open>Config.Operators\<close>: the loop over \<^verbatim>\<open>conf.Operator\<close>, with the map built so
  far and the log; \<^verbatim>\<open>CasefoldName\<close> (\<^verbatim>\<open>irc/strings.go\<close>) is a parameter.
\<close>

fun Operators_loop ::
  "(string \<Rightarrow> string \<times> error option) \<Rightarrow> (string \<Rightarrow> string \<times> error option) \<Rightarrow>
     (string \<times> PassConfig option) list \<Rightarrow> (string \<rightharpoonup> string) \<times> log \<Rightarrow>
     abort + ((string \<rightharpoonup> string) \<times> log)" where
  "Operators_loop CasefoldName DecodePassword [] st = Inr st"
| "Operators_loop CasefoldName DecodePassword ((name, opConf) # rest) (operators, lg) =
     (case CasefoldName name of
        (name', None) \<Rightarrow>
          (case PasswordBytes DecodePassword opConf of
             Inl a \<Rightarrow> Inl a
           | Inr bytes \<Rightarrow>
               Operators_loop CasefoldName DecodePassword rest (operators(name' \<mapsto> bytes), lg))
      | (name', Some err) \<Rightarrow>
          Operators_loop CasefoldName DecodePassword rest
            (operators, lg @ [''Could not casefold oper name: '' @ error_message err]))"

definition Operators ::
  "(string \<Rightarrow> string \<times> error option) \<Rightarrow> (string \<Rightarrow> string \<times> error option) \<Rightarrow> Config \<Rightarrow>
     abort + ((string \<rightharpoonup> string) \<times> log)" where
  "Operators CasefoldName DecodePassword conf =
     Operators_loop CasefoldName DecodePassword (Operator conf) (Map.empty, [])"

text \<open>\<^verbatim>\<open>Config.TLSListeners\<close>: the loop over \<^verbatim>\<open>conf.Server.TLSListeners\<close>.\<close>

fun TLSListeners_loop ::
  "(string \<Rightarrow> string \<Rightarrow> 'cert \<times> error option) \<Rightarrow> (string \<Rightarrow> string \<times> error option) \<Rightarrow>
     (string \<times> TLSListenConfig option) list \<Rightarrow>
     (string \<rightharpoonup> 'cert tls_Config option) \<times> log \<Rightarrow>
     abort + ((string \<rightharpoonup> 'cert tls_Config option) \<times> log)" where
  "TLSListeners_loop LoadX509KeyPair CasefoldName [] st = Inr st"
| "TLSListeners_loop LoadX509KeyPair CasefoldName ((s, tlsListenersConf) # rest) (tlsListeners, lg) =
     (case TLSListenConfig_Config LoadX509KeyPair tlsListenersConf of
        Inl a \<Rightarrow> Inl a
      | Inr (config, Some err) \<Rightarrow> Inl (Fatal (error_message err))
      | Inr (config, None) \<Rightarrow>
          (case CasefoldName s of
             (name, None) \<Rightarrow>
               TLSListeners_loop LoadX509KeyPair CasefoldName rest
                 (tlsListeners(name \<mapsto> config), lg)
           | (name, Some err) \<Rightarrow>
               TLSListeners_loop LoadX509KeyPair CasefoldName rest
                 (tlsListeners, lg @ [''Could not casefold TLS listener: '' @ error_message err])))"

definition TLSListeners ::
  "(string \<Rightarrow> string \<Rightarrow> 'cert \<times> error option) \<Rightarrow> (string \<Rightarrow> string \<times> error option) \<Rightarrow> Config \<Rightarrow>
     abort + ((string \<rightharpoonup> 'cert tls_Config option) \<times> log)" where
  "TLSListeners LoadX509KeyPair CasefoldName conf =
     TLSListeners_loop LoadX509KeyPair CasefoldName (Server_TLSListeners (Server conf)) (Map.empty, [])"

subsection \<open>Loading\<close>

text \<open>
  The step between deserialization and the checks: a non-empty
  \<^verbatim>\<open>Server.Password\<close> is stored in \<^verbatim>\<open>Server.PassConfig.Password\<close>.
\<close>

definition copy_password :: "Config \<Rightarrow> Config" where
  "copy_password config =
     (if Server_Password (Server config) \<noteq> ''''
      then config\<lparr>Server := (Server config)\<lparr>Server_PassConfig :=
             (Server_PassConfig (Server config))\<lparr>Password := Server_Password (Server config)\<rparr>\<rparr>\<rparr>
      else config)"

text \<open>
  \<^verbatim>\<open>LoadConfig\<close>; \<^verbatim>\<open>ioutil.ReadFile\<close> (data, error) and \<^verbatim>\<open>yaml.Unmarshal\<close>
  are parameters. \<^verbatim>\<open>yaml.Unmarshal(data, &config)\<close> starts from a nil
  \<^verbatim>\<open>config\<close> and returns the pointer it leaves there and its error; the first
  read through \<^verbatim>\<open>config\<close> panics when the pointer is still nil.
\<close>

definition LoadConfig ::
  "(string \<Rightarrow> string \<times> error option) \<Rightarrow> (string \<Rightarrow> Config option \<times> error option) \<Rightarrow>
     (rune \<Rightarrow> rune) \<Rightarrow> string \<Rightarrow> abort + (Config option \<times> error option)" where
  "LoadConfig ReadFile Unmarshal tab filename =
     (let (data, err) = ReadFile filename in
      if err \<noteq> None then Inr (None, err)
      else
        let (config, err) = Unmarshal data in
        if err \<noteq> None then Inr (None, err)
        else
          (case config of
             None \<Rightarrow> Inl NilPointerDereference
           | Some config0 \<Rightarrow>
               let config = copy_password config0 in
               if Network_Name (Network config) = '''' then
                 Inr (None, Some (Error ''Network name missing''))
               else if Server_Name (Server config) = '''' then
                 Inr (None, Some (Error ''Server name missing''))
               else if \<not> IsHostname tab (Server_Name (Server config)) then
                 Inr (None, Some (Error ''Server name must match the format of a hostname''))
               else if Datastore_Path (Datastore config) = '''' then
                 Inr (None, Some (Error ''Datastore path missing''))
               else if length (Server_Listen (Server config)) = 0 then
                 Inr (None, Some (Error ''Server listening addresses missing''))
               else if NickLen (Limits config) < 1 \<or> ChannelLen (Limits config) < 2
                   \<or> AwayLen (Limits config) < 1 \<or> TopicLen (Limits config) < 1
                   \<or> TopicLen (Limits config) < 1 then
                 Inr (None, Some (Error
                   ''Limits aren't setup properly, check them and make them sane''))
               else Inr (Some config, None)))"


subsection \<open>The invariants as the specification lists them\<close>

text \<open>
  The six load-time invariants of the specification, in its order, each with the
  message of the error that reports its violation. This list follows the words of the
  specification; \<^const>\<open>LoadConfig\<close> above follows the code.
\<close>

definition invariant_checks :: "(rune \<Rightarrow> rune) \<Rightarrow> Config \<Rightarrow> (bool \<times> string) list" where
  "invariant_checks tab c =
     [(Network_Name (Network c) \<noteq> '''', ''Network name missing''),
      (Server_Name (Server c) \<noteq> '''', ''Server name missing''),
      (IsHostname tab (Server_Name (Server c)),
         ''Server name must match the format of a hostname''),
      (Datastore_Path (Datastore c) \<noteq> '''', ''Datastore path missing''),
      (Server_Listen (Server c) \<noteq> [], ''Server listening addresses missing''),
      (NickLen (Limits c) \<ge> 1 \<and> ChannelLen (Limits c) \<ge> 2 \<and> AwayLen (Limits c) \<ge> 1
         \<and> TopicLen (Limits c) \<ge> 1,
         ''Limits aren't setup properly, check them and make them sane'')]"

text \<open>The message of the earliest violated invariant, if there is one.\<close>

definition first_violation :: "(rune \<Rightarrow> rune) \<Rightarrow> Config \<Rightarrow> string option" where
  "first_violation tab c = map_option snd (find (\<lambda>(ok, msg). \<not> ok) (invariant_checks tab c))"


subsection \<open>A concrete configuration\<close>

text \<open>A configuration that passes every check, for the examples below.\<close>

definition example_config :: Config where
  "example_config =
     \<lparr>Network = \<lparr>Network_Name = ''ErgoTest''\<rparr>,
      Server = \<lparr>Server_PassConfig = \<lparr>Password = ''''\<rparr>,
                Server_Password = ''hunter2'',
                Server_Name = ''irc.example.com'',
                Server_Listen = ['':6667''],
                Server_Wslisten = '''',
                Server_TLSListeners =
                  [('':6697'', Some \<lparr>Cert = ''tls.crt'', Key = ''tls.key''\<rparr>)],
                Server_CheckIdent = False,
                Server_Log = '''',
                Server_MOTD = ''ergo.motd'',
                Server_ProxyAllowedFrom = []\<rparr>,
      Datastore = \<lparr>Datastore_Path = ''ircd.db''\<rparr>,
      Registration = \<lparr>Registration_Accounts =
        \<lparr>Enabled = False, EnabledCallbacks = [],
         Callbacks = \<lparr>Callbacks_Mailto =
           \<lparr>Mailto_Server = '''', Mailto_Port = 0,
            Mailto_TLS = \<lparr>TLS_Enabled = False, TLS_InsecureSkipVerify = False,
                          TLS_ServerName = ''''\<rparr>,
            Mailto_Username = '''', Mailto_Password = '''', Mailto_Sender = '''',
            Mailto_VerifyMessageSubject = '''', Mailto_VerifyMessage = ''''\<rparr>\<rparr>\<rparr>\<rparr>,
      Operator = [(''dan'', Some \<lparr>Password = ''c2VjcmV0''\<rparr>)],
      Limits = \<lparr>NickLen = 32, ChannelLen = 64, AwayLen = 200, KickLen = 0, TopicLen = 390,
                WhowasEntries = 100\<rparr>\<rparr>"


subsection \<open>Stand-ins for the parameters\<close>

text \<open>
  Concrete functions in the place of the library and of the functions of the repository
  that are taken as parameters, for the examples below: a canonicalizer that lowers ASCII
  letters and rejects a name with a space, a decoder that knows one secret, and a
  key-pair loader that finds one pair of files.
\<close>

definition example_CasefoldName :: "string \<Rightarrow> string \<times> error option" where
  "example_CasefoldName name =
     (if CHR '' '' \<in> set name then ('''', Some (Error ''name is not allowed''))
      else (ascii_lowercase name, None))"

definition example_DecodePassword :: "string \<Rightarrow> string \<times> error option" where
  "example_DecodePassword encoded =
     (if encoded = ''c2VjcmV0'' then (''secret'', None)
      else ('''', Some (Error ''illegal base64 data'')))"

definition example_LoadX509KeyPair :: "string \<Rightarrow> string \<Rightarrow> string \<times> error option" where
  "example_LoadX509KeyPair certFile keyFile =
     (if certFile = ''tls.crt'' \<and> keyFile = ''tls.key'' then (''certificate of tls.crt'', None)
      else ('''', Some (Error ''open: no such file or directory'')))"


section \<open>Properties of the hostname validator\<close>

subsection \<open>The loops as quantifiers\<close>

lemma DecodeRuneInString_width:
  "s \<noteq> [] \<Longrightarrow> 1 \<le> snd (DecodeRuneInString s)"
  by (simp add: DecodeRuneInString_def Let_def)

lemma HasPrefix_single: "HasPrefix s [c] \<longleftrightarrow> s \<noteq> [] \<and> hd s = c"
  by (cases s) (auto simp: HasPrefix_def)

lemma HasSuffix_single: "HasSuffix s [c] \<longleftrightarrow> s \<noteq> [] \<and> last s = c"
proof (cases s rule: rev_cases)
  case Nil
  then show ?thesis by (simp add: HasSuffix_def)
next
  case (snoc ys y)
  then show ?thesis by (auto simp: HasSuffix_def)
qed

lemma Index_single_None: "Index s [c] = None \<longleftrightarrow> c \<notin> set s"
  by (induction s) (auto simp: HasPrefix_single)

lemma Contains_single: "Contains s [c] \<longleftrightarrow> c \<in> set s"
  by (simp add: Contains_def Index_single_None)

lemma Index_Some_set: "Index s sub = Some m \<Longrightarrow> set sub \<subseteq> set s"
proof (induction s arbitrary: m)
  case Nil
  then show ?case by (simp split: if_splits)
next
  case (Cons c cs)
  show ?case
  proof (cases "HasPrefix (c # cs) sub")
    case True
    then have "take (length sub) (c # cs) = sub" by (simp add: HasPrefix_def)
    then have "set sub \<subseteq> set (c # cs)" by (metis set_take_subset)
    then show ?thesis .
  next
    case False
    with Cons.prems obtain k where "Index cs sub = Some k" by auto
    then have "set sub \<subseteq> set cs" by (rule Cons.IH)
    then show ?thesis by auto
  qed
qed

lemma Contains_set: "Contains s sub \<Longrightarrow> set sub \<subseteq> set s"
  by (auto simp: Contains_def dest: Index_Some_set)

lemma parts_loop_iff:
  "parts_loop ps \<longleftrightarrow>
     (\<forall>part \<in> set ps. 1 \<le> length part \<and> length part \<le> 63 \<and>
        hd part \<noteq> CHR ''-'' \<and> last part \<noteq> CHR ''-'')"
  by (induction ps) (auto simp: HasPrefix_single HasSuffix_single Suc_le_eq)

lemma allowed_ascii: "c \<in> set allowedHostnameChars \<Longrightarrow> (of_char c :: int) < 0x80"
  by (auto simp: allowedHostnameChars_def)

lemma DecodeRuneInString_wide:
  "s \<noteq> [] \<Longrightarrow> snd (DecodeRuneInString s) \<noteq> 1 \<Longrightarrow> (of_char (hd s) :: int) \<ge> 0x80"
  by (cases s) (auto simp: DecodeRuneInString_def Let_def first_def split: if_splits)

lemma chunk_ok:
  assumes "s \<noteq> []"
  shows "Contains allowedHostnameChars (take (snd (DecodeRuneInString s)) s) \<longleftrightarrow>
    (\<forall>c \<in> set (take (snd (DecodeRuneInString s)) s). c \<in> set allowedHostnameChars)"
proof (cases "snd (DecodeRuneInString s) = 1")
  case True
  with assms show ?thesis by (cases s) (auto simp: Contains_single)
next
  case False
  from assms False have wide: "(of_char (hd s) :: int) \<ge> 0x80"
    by (rule DecodeRuneInString_wide)
  from assms DecodeRuneInString_width [of s] have "hd s \<in> set (take (snd (DecodeRuneInString s)) s)"
    by (cases s; cases "snd (DecodeRuneInString s)") auto
  moreover from wide have "hd s \<notin> set allowedHostnameChars"
    using allowed_ascii [of "hd s"] by auto
  ultimately show ?thesis
    using Contains_set by blast
qed

lemma chars_loop_explode:
  "chars_loop (explode s) \<longleftrightarrow> (\<forall>c \<in> set s. c \<in> set allowedHostnameChars)"
proof (induction s rule: explode.induct)
  case (1 s)
  show ?case
  proof (cases "s = []")
    case True
    then show ?thesis by (simp add: explode.simps)
  next
    case False
    let ?w = "snd (DecodeRuneInString s)"
    have "set s = set (take ?w s) \<union> set (drop ?w s)"
      by (metis append_take_drop_id set_append)
    with False 1 chunk_ok [OF False] show ?thesis
      by (subst explode.simps) auto
  qed
qed

lemma allowed_set:
  "c \<in> set allowedHostnameChars \<longleftrightarrow> c \<in> set ''abcdefghijklmnopqrstuvwxyz0123456789.-''"
  unfolding allowedHostnameChars_def by auto

lemma Split_empty_sep: "Split s '''' = explode s"
  by (subst Split.simps) simp

lemma IsHostname_unfold:
  "IsHostname tab name \<longleftrightarrow>
      1 \<le> length name \<and> length name \<le> 253 \<and>
      CHR ''.'' \<in> set name \<and>
      (\<forall>part \<in> set (Split name ''.'').
          1 \<le> length part \<and> length part \<le> 63 \<and>
          hd part \<noteq> CHR ''-'' \<and> last part \<noteq> CHR ''-'') \<and>
      (\<forall>c \<in> set (ToLower tab name). c \<in> set allowedHostnameChars)"
  unfolding IsHostname_def Split_empty_sep chars_loop_explode Contains_single parts_loop_iff
  by (auto simp: Suc_le_eq)


subsection \<open>The parts of a name\<close>

lemma Index_single_Some:
  "Index s [c] = Some m \<Longrightarrow> m < length s \<and> s ! m = c \<and> c \<notin> set (take m s)"
proof (induction s arbitrary: m)
  case Nil
  then show ?case by simp
next
  case (Cons x xs)
  show ?case
  proof (cases "x = c")
    case True
    with Cons.prems show ?thesis by (simp add: HasPrefix_single)
  next
    case False
    with Cons.prems obtain k where k: "Index xs [c] = Some k" and m: "m = Suc k"
      by (auto simp: HasPrefix_single)
    from Cons.IH [OF k] False m show ?thesis by simp
  qed
qed

lemma Split_nonempty: "sep \<noteq> [] \<Longrightarrow> Split s sep \<noteq> []"
  by (subst Split.simps) (simp split: option.splits)

text \<open>
  The parts that \<^const>\<open>Split\<close> returns for a separator of one byte: joined with the
  separator they give the string back, and none of them contains the separator.
\<close>

theorem Split_single_separator:
  "Join (Split s [c]) [c] = s \<and> (\<forall>part \<in> set (Split s [c]). c \<notin> set part)"
proof (induction s "[c]" rule: Split.induct)
  case (1 s)
  show ?case
  proof (cases "Index s [c]")
    case None
    then have "Split s [c] = [s]" by (subst Split.simps) simp
    moreover from None have "c \<notin> set s" by (simp add: Index_single_None)
    ultimately show ?thesis by simp
  next
    case (Some m)
    let ?rest = "Split (drop (m + length [c]) s) [c]"
    from Some have split: "Split s [c] = take m s # ?rest"
      by (subst Split.simps) simp
    from Index_single_Some [OF Some] have m: "m < length s" "s ! m = c" "c \<notin> set (take m s)"
      by simp_all
    from 1 Some have ih: "Join ?rest [c] = drop (m + length [c]) s"
      "\<forall>part \<in> set ?rest. c \<notin> set part"
      by simp_all
    obtain b bs where rest: "?rest = b # bs"
      using Split_nonempty [of "[c]" "drop (m + length [c]) s"] by (cases ?rest) auto
    have "Join (Split s [c]) [c] = take m s @ [c] @ Join ?rest [c]"
      unfolding split rest by simp
    also have "\<dots> = take m s @ [c] @ drop (Suc m) s"
      using ih(1) by simp
    also have "\<dots> = s"
      using id_take_nth_drop [OF m(1)] m(2) by simp
    finally have "Join (Split s [c]) [c] = s" .
    moreover have "\<forall>part \<in> set (Split s [c]). c \<notin> set part"
      unfolding split using m(3) ih(2) by simp
    ultimately show ?thesis by simp
  qed
qed

theorem Split_single_separator_witness:
  "Join (Split ''irc.example.com'' ''.'') ''.'' = ''irc.example.com''
   \<and> Split ''irc.example.com'' ''.'' = [''irc'', ''example'', ''com'']"
proof -
  have "Split ''irc.example.com'' ''.'' = [''irc'', ''example'', ''com'']"
    by code_simp
  with Split_single_separator [of "''irc.example.com''" "CHR ''.''"] show ?thesis
    by blast
qed

subsection \<open>ASCII lowercasing does not change what the validator reads\<close>

lemma ascii_lower_high: "(of_char c :: int) \<ge> 0x80 \<Longrightarrow> ascii_lower c = c"
proof -
  assume "(of_char c :: int) \<ge> 0x80"
  then have "int (of_char c) \<ge> 0x80" by (simp add: of_nat_of_char)
  then have "(of_char c :: nat) \<ge> 0x80" by linarith
  then show ?thesis by (simp add: ascii_lower_def)
qed

lemma ascii_lower_low: "(of_char c :: int) < 0x80 \<Longrightarrow> (of_char (ascii_lower c) :: int) < 0x80"
proof -
  assume a: "(of_char c :: int) < 0x80"
  show ?thesis
  proof (cases "0x41 \<le> (of_char c :: nat) \<and> (of_char c :: nat) \<le> 0x5A")
    case True
    then have "ascii_lower c = char_of (of_char c + 0x20 :: nat)" by (simp add: ascii_lower_def)
    moreover have "(of_char (char_of (of_char c + 0x20 :: nat)) :: nat) = of_char c + 0x20"
      using True by simp
    ultimately have "(of_char (ascii_lower c) :: nat) < 0x80" using True by simp
    then have "int (of_char (ascii_lower c)) < 0x80" by linarith
    then show ?thesis by (simp add: of_nat_of_char)
  next
    case False
    then have "ascii_lower c = c" unfolding ascii_lower_def by (rule if_not_P)
    with a show ?thesis by simp
  qed
qed

lemma accept_lo:
  "first b < 0xF0 \<Longrightarrow> 0x80 \<le> fst (acceptRanges (drop_bit 4 (first b)))"
  by (auto simp: first_def acceptRanges_def split: if_splits)

lemma Decode_lower_nonascii:
  assumes "s \<noteq> []" and "(of_char (hd s) :: int) \<ge> 0x80"
  shows "DecodeRuneInString (map ascii_lower s) = DecodeRuneInString s"
proof -
  obtain b0 rest where s: "s = b0 # rest" using assms(1) by (cases s) auto
  with assms(2) have b0: "ascii_lower b0 = b0" by (simp add: ascii_lower_high)
  define x where "x = first (of_char b0)"
  define lo where "lo = fst (acceptRanges (drop_bit 4 x))"
  define hi where "hi = snd (acceptRanges (drop_bit 4 x))"
  note defs = DecodeRuneInString_def Let_def x_def [symmetric] lo_def [symmetric] hi_def [symmetric]
  show ?thesis
  proof (cases "x \<ge> 0xF0")
    case True
    with s b0 show ?thesis by (simp add: defs)
  next
    case False
    then have lo: "0x80 \<le> lo" unfolding lo_def x_def by (simp add: accept_lo)
    show ?thesis
    proof (cases rest)
      case Nil
      with s b0 show ?thesis by (simp add: defs)
    next
      case (Cons b1 rest1)
      note r1 = this
      show ?thesis
      proof (cases "(of_char b1 :: int) < 0x80")
        case True
        from ascii_lower_low [OF True] True lo s r1 b0 show ?thesis
          by (simp add: defs)
      next
        case False
        then have b1: "ascii_lower b1 = b1" by (simp add: ascii_lower_high)
        show ?thesis
        proof (cases rest1)
          case Nil
          with s r1 b0 b1 show ?thesis by (simp add: defs)
        next
          case (Cons b2 rest2)
          note r2 = this
          show ?thesis
          proof (cases "(of_char b2 :: int) < 0x80")
            case True
            from ascii_lower_low [OF True] True s r1 r2 b0 b1 show ?thesis
              by (simp add: defs)
          next
            case False
            then have b2: "ascii_lower b2 = b2" by (simp add: ascii_lower_high)
            show ?thesis
            proof (cases rest2)
              case Nil
              with s r1 r2 b0 b1 b2 show ?thesis by (simp add: defs)
            next
              case (Cons b3 rest3)
              note r3 = this
              show ?thesis
              proof (cases "(of_char b3 :: int) < 0x80")
                case True
                from ascii_lower_low [OF True] True s r1 r2 r3 b0 b1 b2 show ?thesis
                  by (simp add: defs)
              next
                case False
                then have b3: "ascii_lower b3 = b3" by (simp add: ascii_lower_high)
                from s r1 r2 r3 b0 b1 b2 b3 show ?thesis
                  by (simp add: defs)
              qed
            qed
          qed
        qed
      qed
    qed
  qed
qed

lemma Decode_ascii:
  "(of_char c :: int) < 0x80 \<Longrightarrow> DecodeRuneInString (c # cs) = (of_char c, 1)"
  by (simp add: DecodeRuneInString_def Let_def first_def)

lemma unicode_ToLower_ascii_lower:
  assumes "(of_char c :: int) < 0x80"
  shows "unicode_ToLower tab (of_char (ascii_lower c)) = unicode_ToLower tab (of_char c)"
proof (cases "0x41 \<le> (of_char c :: nat) \<and> (of_char c :: nat) \<le> 0x5A")
  case True
  then have "ascii_lower c = char_of (of_char c + 0x20 :: nat)" by (simp add: ascii_lower_def)
  moreover have "(of_char (char_of (of_char c + 0x20 :: nat)) :: nat) = of_char c + 0x20"
    using True by simp
  ultimately have "(of_char (ascii_lower c) :: nat) = of_char c + 0x20" by simp
  then have "int (of_char (ascii_lower c)) = int (of_char c) + 0x20" by simp
  then have eq: "(of_char (ascii_lower c) :: int) = of_char c + 0x20" by (simp add: of_nat_of_char)
  from True have "0x41 \<le> int (of_char c) \<and> int (of_char c) \<le> 0x5A" by linarith
  then have "0x41 \<le> (of_char c :: int) \<and> (of_char c :: int) \<le> 0x5A" by (simp add: of_nat_of_char)
  with eq show ?thesis by (simp add: unicode_ToLower_def)
next
  case False
  then have "ascii_lower c = c" unfolding ascii_lower_def by (rule if_not_P)
  then show ?thesis by simp
qed

lemma Map_step:
  "s \<noteq> [] \<Longrightarrow> DecodeRuneInString s = (c, w) \<Longrightarrow>
   Map mapping s = (if mapping c \<ge> 0 then EncodeRune (mapping c) else []) @ Map mapping (drop w s)"
  by (subst Map.simps) (simp add: Let_def)

lemma Map_ascii_lowercase:
  "Map (unicode_ToLower tab) (map ascii_lower s) = Map (unicode_ToLower tab) s"
proof (induction "unicode_ToLower tab" s rule: Map.induct)
  case (1 s)
  show ?case
  proof (cases "s = []")
    case True
    then show ?thesis by simp
  next
    case False
    then have ne: "map ascii_lower s \<noteq> []" by simp
    obtain c w where d: "DecodeRuneInString s = (c, w)" by (cases "DecodeRuneInString s")
    from 1 False d have ih:
      "Map (unicode_ToLower tab) (map ascii_lower (drop w s)) = Map (unicode_ToLower tab) (drop w s)"
      by simp
    show ?thesis
    proof (cases "(of_char (hd s) :: int) < 0x80")
      case True
      from False obtain b bs where s: "s = b # bs" by (cases s) auto
      with True d have c: "c = of_char b" and w: "w = 1"
        by (simp_all add: Decode_ascii)
      have d': "DecodeRuneInString (map ascii_lower s) = (of_char (ascii_lower b), 1)"
        using ascii_lower_low [of b] True s by (simp add: Decode_ascii)
      have "unicode_ToLower tab (of_char (ascii_lower b)) = unicode_ToLower tab c"
        using True s c by (simp add: unicode_ToLower_ascii_lower)
      then show ?thesis
        using ih w by (simp add: Map_step [OF ne d'] Map_step [OF False d] drop_map)
    next
      case False': False
      then have d': "DecodeRuneInString (map ascii_lower s) = (c, w)"
        using False d Decode_lower_nonascii [of s] by simp
      show ?thesis
        using ih by (simp add: Map_step [OF ne d'] Map_step [OF False d] drop_map)
    qed
  qed
qed

lemma ToLower_ascii_lowercase: "ToLower tab (ascii_lowercase s) = ToLower tab s"
  by (simp add: ToLower_def ascii_lowercase_def Map_ascii_lowercase)

lemma ascii_lower_eq_iff:
  "(of_char d :: nat) < 0x41 \<or> (0x5A < (of_char d :: nat) \<and> (of_char d :: nat) < 0x61) \<or> 0x7A < (of_char d :: nat) \<Longrightarrow> ascii_lower c = d \<longleftrightarrow> c = d"
proof (cases "0x41 \<le> (of_char c :: nat) \<and> (of_char c :: nat) \<le> 0x5A")
  case True
  assume d: "(of_char d :: nat) < 0x41 \<or> (0x5A < (of_char d :: nat) \<and> (of_char d :: nat) < 0x61) \<or> 0x7A < (of_char d :: nat)"
  from True have "ascii_lower c = char_of (of_char c + 0x20 :: nat)" by (simp add: ascii_lower_def)
  moreover have "(of_char (char_of (of_char c + 0x20 :: nat)) :: nat) = of_char c + 0x20"
    using True by simp
  ultimately have "(of_char (ascii_lower c) :: nat) = of_char c + 0x20" by simp
  with True d have "(of_char (ascii_lower c) :: nat) \<noteq> of_char d" and "(of_char c :: nat) \<noteq> of_char d"
    by auto
  then show ?thesis by auto
next
  case False
  then have "ascii_lower c = c" unfolding ascii_lower_def by (rule if_not_P)
  then show ?thesis by simp
qed

lemma ascii_lower_dot: "ascii_lower c = CHR ''.'' \<longleftrightarrow> c = CHR ''.''"
  by (rule ascii_lower_eq_iff) simp

lemma ascii_lower_dash: "ascii_lower c = CHR ''-'' \<longleftrightarrow> c = CHR ''-''"
  by (rule ascii_lower_eq_iff) simp

lemma Index_dot_lower: "Index (map ascii_lower s) ''.'' = Index s ''.''"
  by (induction s) (auto simp: HasPrefix_single ascii_lower_dot)

lemma Split_dot_lower: "Split (map ascii_lower s) ''.'' = map (map ascii_lower) (Split s ''.'')"
proof (induction s "''.''" rule: Split.induct)
  case (1 s)
  show ?case
  proof (cases "Index s ''.''")
    case None
    then show ?thesis
      by (subst (1 2) Split.simps) (simp add: Index_dot_lower)
  next
    case (Some m)
    with 1 have "Split (map ascii_lower (drop (m + length ''.'') s)) ''.''
        = map (map ascii_lower) (Split (drop (m + length ''.'') s) ''.'')"
      by simp
    with Some show ?thesis
      by (subst (1 2) Split.simps) (simp add: Index_dot_lower drop_map take_map)
  qed
qed

lemma parts_loop_lower: "parts_loop (map (map ascii_lower) ps) = parts_loop ps"
  by (induction ps) (auto simp: HasPrefix_single HasSuffix_single hd_map last_map ascii_lower_dash)

subsection \<open>Lowering an ASCII name\<close>

lemma EncodeRune_ascii: "0 \<le> r \<Longrightarrow> r \<le> 0x7F \<Longrightarrow> EncodeRune r = [char_of r]"
  by (simp add: EncodeRune_def)

lemma of_char_ascii_lower_int:
  "(of_char (ascii_lower c) :: int) =
     (if 0x41 \<le> (of_char c :: int) \<and> (of_char c :: int) \<le> 0x5A then of_char c + 0x20 else of_char c)"
proof (cases "0x41 \<le> (of_char c :: nat) \<and> (of_char c :: nat) \<le> 0x5A")
  case True
  then have "ascii_lower c = char_of (of_char c + 0x20 :: nat)" by (simp add: ascii_lower_def)
  moreover have "(of_char (char_of (of_char c + 0x20 :: nat)) :: nat) = of_char c + 0x20"
    using True by simp
  ultimately have "(of_char (ascii_lower c) :: nat) = of_char c + 0x20" by simp
  then have "int (of_char (ascii_lower c)) = int (of_char c) + 0x20" by simp
  then have eq: "(of_char (ascii_lower c) :: int) = of_char c + 0x20" by (simp add: of_nat_of_char)
  from True have "0x41 \<le> int (of_char c) \<and> int (of_char c) \<le> 0x5A" by linarith
  then have "0x41 \<le> (of_char c :: int) \<and> (of_char c :: int) \<le> 0x5A" by (simp add: of_nat_of_char)
  with eq show ?thesis by simp
next
  case False
  then have eq: "ascii_lower c = c" unfolding ascii_lower_def by (rule if_not_P)
  have "\<not> (0x41 \<le> int (of_char c) \<and> int (of_char c) \<le> 0x5A)"
    using False by linarith
  then have "\<not> (0x41 \<le> (of_char c :: int) \<and> (of_char c :: int) \<le> 0x5A)"
    by (simp add: of_nat_of_char)
  with eq show ?thesis by simp
qed

lemma Map_ToLower_ascii:
  "\<forall>c \<in> set s. (of_char c :: int) < 0x80 \<Longrightarrow> Map (unicode_ToLower tab) s = map ascii_lower s"
proof (induction s)
  case Nil
  show ?case by (simp add: Map.simps)
next
  case (Cons c cs)
  then have c: "(of_char c :: int) < 0x80" and ih: "Map (unicode_ToLower tab) cs = map ascii_lower cs"
    by simp_all
  have d: "DecodeRuneInString (c # cs) = (of_char c, 1)"
    using c by (rule Decode_ascii)
  have nn: "0 \<le> (of_char c :: int)"
    by (metis of_nat_0_le_iff of_nat_of_char)
  have low: "unicode_ToLower tab (of_char c) = of_char (ascii_lower c)"
    using c by (simp add: unicode_ToLower_def of_char_ascii_lower_int)
  have nn': "0 \<le> (of_char (ascii_lower c) :: int)"
    by (metis of_nat_0_le_iff of_nat_of_char)
  have le: "(of_char (ascii_lower c) :: int) \<le> 0x7F"
    using ascii_lower_low [OF c] by simp
  have "Map (unicode_ToLower tab) (c # cs) = EncodeRune (of_char (ascii_lower c)) @ Map (unicode_ToLower tab) cs"
    using Map_step [of "c # cs" "of_char c" 1 "unicode_ToLower tab"] d low nn' by simp
  also have "EncodeRune (of_char (ascii_lower c)) = [ascii_lower c]"
    using EncodeRune_ascii [OF nn' le] by simp
  finally show ?case using ih by simp
qed

lemma ascii_lower_allowed:
  "\<forall>c :: char. (ascii_lower c \<in> set allowedHostnameChars) =
     (c \<in> set ''abcdefghijklmnopqrstuvwxyzABCDEFGHIJKLMNOPQRSTUVWXYZ0123456789.-'')"
  by code_simp

lemma ToLower_ascii:
  "\<forall>c \<in> set s. (of_char c :: nat) < 128 \<Longrightarrow> ToLower tab s = map ascii_lower s"
proof -
  assume a: "\<forall>c \<in> set s. (of_char c :: nat) < 128"
  have "\<forall>c \<in> set s. (of_char c :: int) < 0x80"
  proof
    fix c
    assume "c \<in> set s"
    with a have "(of_char c :: nat) < 128" by blast
    then have "int (of_char c) < 128" by linarith
    then show "(of_char c :: int) < 0x80" by (simp add: of_nat_of_char)
  qed
  then show ?thesis
    unfolding ToLower_def by (rule Map_ToLower_ascii)
qed


subsection \<open>Claims on the hostname validator\<close>

text \<open>
  Claim C3. \<^verbatim>\<open>IsHostname(name)\<close> is true if and only if the length of the name (in
  bytes) is between 1 and 253, the name contains a dot, every part between dots has a
  length between 1 and 63 and neither starts nor ends with a dash, and every character
  of the name, lowered by \<^verbatim>\<open>strings.ToLower\<close> as the code does, is one of
  \<open>a\<close> to \<open>z\<close>, \<open>0\<close> to \<open>9\<close>, the dot and the dash. In particular a name
  without a dot is never a hostname. For a name of ASCII bytes the last rule says that
  every byte is a letter of either case, a digit, the dot or the dash; what a byte outside
  ASCII lowers to is decided by the case tables of the Go library.
\<close>

theorem IsHostname_iff:
  "(IsHostname tab name \<longleftrightarrow>
      1 \<le> length name \<and> length name \<le> 253 \<and>
      CHR ''.'' \<in> set name \<and>
      (\<forall>part \<in> set (Split name ''.'').
          1 \<le> length part \<and> length part \<le> 63 \<and>
          hd part \<noteq> CHR ''-'' \<and> last part \<noteq> CHR ''-'') \<and>
      (\<forall>c \<in> set (ToLower tab name). c \<in> set ''abcdefghijklmnopqrstuvwxyz0123456789.-''))
   \<and> (CHR ''.'' \<notin> set name \<longrightarrow> \<not> IsHostname tab name)
   \<and> ((\<forall>c \<in> set name. (of_char c :: nat) < 128) \<longrightarrow>
        (IsHostname tab name \<longleftrightarrow>
           1 \<le> length name \<and> length name \<le> 253 \<and>
           CHR ''.'' \<in> set name \<and>
           (\<forall>part \<in> set (Split name ''.'').
               1 \<le> length part \<and> length part \<le> 63 \<and>
               hd part \<noteq> CHR ''-'' \<and> last part \<noteq> CHR ''-'') \<and>
           (\<forall>c \<in> set name.
               c \<in> set ''abcdefghijklmnopqrstuvwxyzABCDEFGHIJKLMNOPQRSTUVWXYZ0123456789.-'')))"
proof -
  let ?len = "1 \<le> length name \<and> length name \<le> 253"
  let ?parts = "\<forall>part \<in> set (Split name ''.'').
          1 \<le> length part \<and> length part \<le> 63 \<and>
          hd part \<noteq> CHR ''-'' \<and> last part \<noteq> CHR ''-''"
  have a: "IsHostname tab name \<longleftrightarrow> ?len \<and> CHR ''.'' \<in> set name \<and> ?parts \<and>
      (\<forall>c \<in> set (ToLower tab name). c \<in> set ''abcdefghijklmnopqrstuvwxyz0123456789.-'')"
    using IsHostname_unfold [of tab name] by (simp only: allowed_set conj_assoc)
  then have b: "CHR ''.'' \<notin> set name \<longrightarrow> \<not> IsHostname tab name"
    by blast
  have c: "IsHostname tab name \<longleftrightarrow> ?len \<and> CHR ''.'' \<in> set name \<and> ?parts \<and>
      (\<forall>c \<in> set name.
         c \<in> set ''abcdefghijklmnopqrstuvwxyzABCDEFGHIJKLMNOPQRSTUVWXYZ0123456789.-'')"
    if ascii: "\<forall>c \<in> set name. (of_char c :: nat) < 128"
  proof -
    have "(\<forall>c \<in> set (ToLower tab name). c \<in> set allowedHostnameChars) \<longleftrightarrow>
        (\<forall>c \<in> set name. ascii_lower c \<in> set allowedHostnameChars)"
      by (simp add: ToLower_ascii [OF ascii])
    also have "\<dots> \<longleftrightarrow> (\<forall>c \<in> set name.
         c \<in> set ''abcdefghijklmnopqrstuvwxyzABCDEFGHIJKLMNOPQRSTUVWXYZ0123456789.-'')"
      by (simp only: ascii_lower_allowed [rule_format])
    finally show ?thesis
      using IsHostname_unfold [of tab name] by (simp only: conj_assoc)
  qed
  from a b c show ?thesis by blast
qed

text \<open>
  The theorem at two names: a dotted name with capital letters is a hostname, a name
  without a dot is not.
\<close>

theorem IsHostname_iff_witness:
  "IsHostname (\<lambda>r. r) ''irc.Example.com'' \<and> \<not> IsHostname (\<lambda>r. r) ''nodothost''"
proof -
  have "1 \<le> length ''irc.Example.com'' \<and> length ''irc.Example.com'' \<le> 253 \<and>
      CHR ''.'' \<in> set ''irc.Example.com'' \<and>
      (\<forall>part \<in> set (Split ''irc.Example.com'' ''.'').
          1 \<le> length part \<and> length part \<le> 63 \<and>
          hd part \<noteq> CHR ''-'' \<and> last part \<noteq> CHR ''-'') \<and>
      (\<forall>c \<in> set (ToLower (\<lambda>r. r) ''irc.Example.com'').
          c \<in> set ''abcdefghijklmnopqrstuvwxyz0123456789.-'')"
    by code_simp
  moreover have "CHR ''.'' \<notin> set ''nodothost''"
    by simp
  ultimately show ?thesis
    using IsHostname_iff [of "\<lambda>r. r" "''irc.Example.com''"]
      IsHostname_iff [of "\<lambda>r. r" "''nodothost''"]
    by blast
qed

text \<open>
  Claim C9. \<^verbatim>\<open>IsHostname\<close> gives the same answer on a name and on its
  ASCII-lowercased form.
\<close>

theorem IsHostname_ascii_lowercase:
  "IsHostname tab name = IsHostname tab (ascii_lowercase name)"
proof -
  have "CHR ''.'' \<in> set (map ascii_lower name) \<longleftrightarrow> CHR ''.'' \<in> set name"
  proof (induction name)
    case Nil
    show ?case by simp
  next
    case (Cons a name)
    have "CHR ''.'' = ascii_lower a \<longleftrightarrow> CHR ''.'' = a"
      using ascii_lower_dot [of a] by auto
    with Cons show ?case by simp
  qed
  then have "Contains (ascii_lowercase name) ''.'' = Contains name ''.''"
    by (simp add: Contains_single ascii_lowercase_def)
  moreover have "length (ascii_lowercase name) = length name"
    by (simp add: ascii_lowercase_def)
  moreover have "parts_loop (Split (ascii_lowercase name) ''.'') = parts_loop (Split name ''.'')"
    by (simp add: ascii_lowercase_def Split_dot_lower parts_loop_lower)
  ultimately show ?thesis
    by (simp add: IsHostname_def ToLower_ascii_lowercase)
qed

text \<open>The theorem at a name in capital letters.\<close>

theorem IsHostname_ascii_lowercase_witness:
  "IsHostname (\<lambda>r. r) ''IRC.Example.COM'' = IsHostname (\<lambda>r. r) ''irc.example.com''"
proof -
  have "ascii_lowercase ''IRC.Example.COM'' = ''irc.example.com''"
    by code_simp
  then show ?thesis
    using IsHostname_ascii_lowercase [of "\<lambda>r. r" "''IRC.Example.COM''"] by simp
qed

section \<open>Properties of the loader\<close>

lemma copy_password_frame:
  "Network (copy_password c) = Network c"
  "Datastore (copy_password c) = Datastore c"
  "Limits (copy_password c) = Limits c"
  "Server_Name (Server (copy_password c)) = Server_Name (Server c)"
  "Server_Listen (Server (copy_password c)) = Server_Listen (Server c)"
  by (simp_all add: copy_password_def)

lemma LoadConfig_parsed:
  assumes "ReadFile filename = (data, None)" and "Unmarshal data = (Some c, None)"
  shows "LoadConfig ReadFile Unmarshal tab filename =
    (case first_violation tab c of
       Some msg \<Rightarrow> Inr (None, Some (Error msg))
     | None \<Rightarrow> Inr (Some (copy_password c), None))"
  using assms
  by (simp add: LoadConfig_def first_violation_def invariant_checks_def copy_password_frame Let_def)

lemma LoadConfig_cases:
  "(\<exists>data e. ReadFile filename = (data, Some e) \<and>
       LoadConfig ReadFile Unmarshal tab filename = Inr (None, Some e))
   \<or> (\<exists>data cfg e. ReadFile filename = (data, None) \<and> Unmarshal data = (cfg, Some e) \<and>
       LoadConfig ReadFile Unmarshal tab filename = Inr (None, Some e))
   \<or> (\<exists>data. ReadFile filename = (data, None) \<and> Unmarshal data = (None, None) \<and>
       LoadConfig ReadFile Unmarshal tab filename = Inl NilPointerDereference)
   \<or> (\<exists>data c. ReadFile filename = (data, None) \<and> Unmarshal data = (Some c, None))"
proof (cases "ReadFile filename")
  case (Pair data err)
  note rf = this
  show ?thesis
  proof (cases err)
    case (Some e)
    with rf show ?thesis by (simp add: LoadConfig_def)
  next
    case None
    note e1 = this
    show ?thesis
    proof (cases "Unmarshal data")
      case (Pair cfg err2)
      with rf e1 show ?thesis
        by (cases err2; cases cfg) (simp_all add: LoadConfig_def)
    qed
  qed
qed

text \<open>
  Claim C2 says that for every configuration document the checks run in the fixed order
  and the earliest violated one is reported. For an empty document
  \<^verbatim>\<open>yaml.Unmarshal\<close> returns no error and leaves \<^verbatim>\<open>config\<close> nil; the document
  has no network name, so the report should be that the network name is missing. The
  code reads \<^verbatim>\<open>config.Server.Password\<close> through the nil pointer before the first
  check and panics.
\<close>

theorem LoadConfig_empty_document:
  "LoadConfig (\<lambda>filename. ([], None)) (\<lambda>data. (None, None)) tab ''ircd.yaml''
   = Inl NilPointerDereference"
  by (simp add: LoadConfig_def)

text \<open>
  The order of the checks, for a document that is read and deserialized into a
  configuration: \<^verbatim>\<open>LoadConfig\<close> reports the earliest violated invariant in the fixed
  order (network name, server name, hostname format, datastore path, listen addresses,
  limits). If the check at position \<open>i\<close> of the list fails and every check before it
  holds, the error returned is the one of check \<open>i\<close>, whatever the later checks say;
  if every check holds, the configuration is returned.
\<close>

theorem LoadConfig_reports_earliest_violation:
  assumes "ReadFile filename = (data, None)" and "Unmarshal data = (Some c, None)"
  shows "(\<forall>i < length (invariant_checks tab c).
            \<not> fst (invariant_checks tab c ! i) \<and> (\<forall>j < i. fst (invariant_checks tab c ! j)) \<longrightarrow>
            LoadConfig ReadFile Unmarshal tab filename =
              Inr (None, Some (Error (snd (invariant_checks tab c ! i)))))
       \<and> ((\<forall>i < length (invariant_checks tab c). fst (invariant_checks tab c ! i)) \<longrightarrow>
            LoadConfig ReadFile Unmarshal tab filename = Inr (Some (copy_password c), None))"
proof (intro conjI allI impI)
  fix i
  assume i: "i < length (invariant_checks tab c)"
    and v: "\<not> fst (invariant_checks tab c ! i) \<and> (\<forall>j < i. fst (invariant_checks tab c ! j))"
  let ?xs = "invariant_checks tab c"
  have "find (\<lambda>(ok, msg). \<not> ok) ?xs = Some (?xs ! i)"
    unfolding find_Some_iff using i v by (intro exI [of _ i]) (auto simp: case_prod_beta)
  then have "first_violation tab c = Some (snd (?xs ! i))"
    by (simp add: first_violation_def)
  then show "LoadConfig ReadFile Unmarshal tab filename = Inr (None, Some (Error (snd (?xs ! i))))"
    using LoadConfig_parsed [of ReadFile filename data Unmarshal c tab] assms by simp
next
  assume a: "\<forall>i < length (invariant_checks tab c). fst (invariant_checks tab c ! i)"
  have "find (\<lambda>(ok, msg). \<not> ok) (invariant_checks tab c) = None"
    unfolding find_None_iff using a by (auto simp: in_set_conv_nth)
  then have "first_violation tab c = None"
    by (simp add: first_violation_def)
  then show "LoadConfig ReadFile Unmarshal tab filename = Inr (Some (copy_password c), None)"
    using LoadConfig_parsed [of ReadFile filename data Unmarshal c tab] assms by simp
qed

lemma localhost_no_hostname: "\<not> IsHostname (\<lambda>r. r) ''localhost''"
  by code_simp

lemma example_hostname: "IsHostname (\<lambda>r. r) ''irc.example.com''"
  by code_simp

text \<open>
  The theorem at a document that violates the hostname format, the datastore path and
  the listen addresses at once (the hostname format is reported), and at a document that
  violates nothing.
\<close>

theorem LoadConfig_reports_earliest_violation_witness:
  "LoadConfig (\<lambda>f. (''Server: ...'', None))
     (\<lambda>d. (Some (example_config\<lparr>
        Server := (Server example_config)\<lparr>Server_Name := ''localhost'', Server_Listen := []\<rparr>,
        Datastore := \<lparr>Datastore_Path = ''''\<rparr>\<rparr>), None))
     (\<lambda>r. r) ''ircd.yaml''
   = Inr (None, Some (Error ''Server name must match the format of a hostname''))
   \<and> LoadConfig (\<lambda>f. (''Server: ...'', None)) (\<lambda>d. (Some example_config, None))
     (\<lambda>r. r) ''ircd.yaml''
   = Inr (Some (copy_password example_config), None)"
proof -
  let ?bad = "example_config\<lparr>
        Server := (Server example_config)\<lparr>Server_Name := ''localhost'', Server_Listen := []\<rparr>,
        Datastore := \<lparr>Datastore_Path = ''''\<rparr>\<rparr>"
  let ?rf = "\<lambda>f :: string. (''Server: ...'', None :: error option)"
  let ?xs = "invariant_checks (\<lambda>r. r) ?bad"
  let ?ys = "invariant_checks (\<lambda>r. r) example_config"
  have bad: "?xs =
     [(True, ''Network name missing''),
      (True, ''Server name missing''),
      (False, ''Server name must match the format of a hostname''),
      (False, ''Datastore path missing''),
      (False, ''Server listening addresses missing''),
      (True, ''Limits aren't setup properly, check them and make them sane'')]"
    by (simp add: invariant_checks_def example_config_def localhost_no_hostname)
  have good: "?ys =
     [(True, ''Network name missing''),
      (True, ''Server name missing''),
      (True, ''Server name must match the format of a hostname''),
      (True, ''Datastore path missing''),
      (True, ''Server listening addresses missing''),
      (True, ''Limits aren't setup properly, check them and make them sane'')]"
    by (simp add: invariant_checks_def example_config_def example_hostname)
  have i2: "2 < length ?xs" and v2: "\<not> fst (?xs ! 2)"
    and m2: "snd (?xs ! 2) = ''Server name must match the format of a hostname''"
    unfolding bad by simp_all
  have e2: "\<forall>j < 2. fst (?xs ! j)"
  proof (intro allI impI)
    fix j :: nat
    assume "j < 2"
    then have "j = 0 \<or> j = 1" by auto
    then show "fst (?xs ! j)" unfolding bad by auto
  qed
  have all: "\<forall>i < length ?ys. fst (?ys ! i)"
  proof (intro allI impI)
    fix i :: nat
    assume "i < length ?ys"
    then have "i = 0 \<or> i = 1 \<or> i = 2 \<or> i = 3 \<or> i = 4 \<or> i = 5" unfolding good by auto
    then show "fst (?ys ! i)" unfolding good by auto
  qed
  note bad_case = LoadConfig_reports_earliest_violation
    [of ?rf "''ircd.yaml''" "''Server: ...''" "\<lambda>d. (Some ?bad, None)" ?bad "\<lambda>r. r",
      OF refl refl, THEN conjunct1, rule_format, of 2, OF i2 conjI, OF v2 e2]
  note good_case = LoadConfig_reports_earliest_violation
    [of ?rf "''ircd.yaml''" "''Server: ...''" "\<lambda>d. (Some example_config, None)" example_config
      "\<lambda>r. r", OF refl refl, THEN conjunct2, rule_format, OF all [rule_format]]
  from bad_case good_case show ?thesis
    unfolding m2 by (intro conjI)
qed

lemma first_violation_None_iff:
  "first_violation tab c = None \<longleftrightarrow> (\<forall>(ok, msg) \<in> set (invariant_checks tab c). ok)"
  by (auto simp: first_violation_def find_None_iff)

lemma first_violation_limits:
  assumes "Network_Name (Network c) \<noteq> ''''" and "Server_Name (Server c) \<noteq> ''''"
    and "IsHostname tab (Server_Name (Server c))" and "Datastore_Path (Datastore c) \<noteq> ''''"
    and "Server_Listen (Server c) \<noteq> []"
  shows "first_violation tab c =
    (if NickLen (Limits c) < 1 \<or> ChannelLen (Limits c) < 2 \<or> AwayLen (Limits c) < 1
        \<or> TopicLen (Limits c) < 1
     then Some ''Limits aren't setup properly, check them and make them sane'' else None)"
  using assms by (auto simp: first_violation_def invariant_checks_def)

text \<open>
  Claim C4. For a document that passes the five checks before the limits, the limits
  check fails exactly when \<^verbatim>\<open>NickLen\<close> < 1, \<^verbatim>\<open>ChannelLen\<close> < 2,
  \<^verbatim>\<open>AwayLen\<close> < 1 or \<^verbatim>\<open>TopicLen\<close> < 1, and the document loads exactly when
  none of these holds: for every value \<open>k\<close> of \<^verbatim>\<open>KickLen\<close>.
\<close>

theorem LoadConfig_limits:
  assumes "ReadFile filename = (data, None)"
    and "Unmarshal data = (Some (c\<lparr>Limits := (Limits c)\<lparr>KickLen := k\<rparr>\<rparr>), None)"
    and "Network_Name (Network c) \<noteq> ''''" and "Server_Name (Server c) \<noteq> ''''"
    and "IsHostname tab (Server_Name (Server c))" and "Datastore_Path (Datastore c) \<noteq> ''''"
    and "Server_Listen (Server c) \<noteq> []"
  shows "(LoadConfig ReadFile Unmarshal tab filename =
            Inr (None, Some (Error ''Limits aren't setup properly, check them and make them sane''))
          \<longleftrightarrow> NickLen (Limits c) < 1 \<or> ChannelLen (Limits c) < 2 \<or> AwayLen (Limits c) < 1
              \<or> TopicLen (Limits c) < 1)
       \<and> (LoadConfig ReadFile Unmarshal tab filename =
            Inr (Some (copy_password (c\<lparr>Limits := (Limits c)\<lparr>KickLen := k\<rparr>\<rparr>)), None)
          \<longleftrightarrow> NickLen (Limits c) \<ge> 1 \<and> ChannelLen (Limits c) \<ge> 2 \<and> AwayLen (Limits c) \<ge> 1
              \<and> TopicLen (Limits c) \<ge> 1)"
proof -
  let ?c = "c\<lparr>Limits := (Limits c)\<lparr>KickLen := k\<rparr>\<rparr>"
  have "first_violation tab ?c =
    (if NickLen (Limits c) < 1 \<or> ChannelLen (Limits c) < 2 \<or> AwayLen (Limits c) < 1
        \<or> TopicLen (Limits c) < 1
     then Some ''Limits aren't setup properly, check them and make them sane'' else None)"
    using assms(3-7) first_violation_limits [of ?c tab] by simp
  then show ?thesis
    using LoadConfig_parsed [of ReadFile filename data Unmarshal ?c tab] assms(1,2)
    by (auto simp: not_less)
qed

text \<open>
  The theorem at a document with a negative \<^verbatim>\<open>KickLen\<close>, which loads, and at one
  with \<^verbatim>\<open>ChannelLen\<close> = 1, which does not.
\<close>

theorem LoadConfig_limits_witness:
  "LoadConfig (\<lambda>f. (''Limits: ...'', None))
     (\<lambda>d. (Some (example_config\<lparr>Limits := (Limits example_config)\<lparr>KickLen := - 7\<rparr>\<rparr>), None))
     (\<lambda>r. r) ''ircd.yaml''
   = Inr (Some (copy_password
       (example_config\<lparr>Limits := (Limits example_config)\<lparr>KickLen := - 7\<rparr>\<rparr>)), None)
   \<and> LoadConfig (\<lambda>f. (''Limits: ...'', None))
     (\<lambda>d. (Some (example_config\<lparr>Limits := (Limits example_config)\<lparr>ChannelLen := 1\<rparr>,
                   Limits := (Limits (example_config\<lparr>Limits :=
                      (Limits example_config)\<lparr>ChannelLen := 1\<rparr>\<rparr>))\<lparr>KickLen := 300\<rparr>\<rparr>), None))
     (\<lambda>r. r) ''ircd.yaml''
   = Inr (None, Some (Error ''Limits aren't setup properly, check them and make them sane''))"
proof -
  let ?short = "example_config\<lparr>Limits := (Limits example_config)\<lparr>ChannelLen := 1\<rparr>\<rparr>"
  have h: "Network_Name (Network example_config) \<noteq> ''''"
    "Server_Name (Server example_config) \<noteq> ''''"
    "IsHostname (\<lambda>r. r) (Server_Name (Server example_config))"
    "Datastore_Path (Datastore example_config) \<noteq> ''''"
    "Server_Listen (Server example_config) \<noteq> []"
    by (simp_all add: example_config_def example_hostname)
  have h': "Network_Name (Network ?short) \<noteq> ''''"
    "Server_Name (Server ?short) \<noteq> ''''"
    "IsHostname (\<lambda>r. r) (Server_Name (Server ?short))"
    "Datastore_Path (Datastore ?short) \<noteq> ''''"
    "Server_Listen (Server ?short) \<noteq> []"
    by (simp_all add: example_config_def example_hostname)
  have ok: "NickLen (Limits example_config) \<ge> 1 \<and> ChannelLen (Limits example_config) \<ge> 2
      \<and> AwayLen (Limits example_config) \<ge> 1 \<and> TopicLen (Limits example_config) \<ge> 1"
    by (simp add: example_config_def)
  have bad: "NickLen (Limits ?short) < 1 \<or> ChannelLen (Limits ?short) < 2
      \<or> AwayLen (Limits ?short) < 1 \<or> TopicLen (Limits ?short) < 1"
    by (simp add: example_config_def)
  note a = LoadConfig_limits
    [where ReadFile = "\<lambda>f. (''Limits: ...'', None)" and filename = "''ircd.yaml''"
      and data = "''Limits: ...''" and c = example_config and k = "- 7" and tab = "\<lambda>r. r"
      and Unmarshal =
        "\<lambda>d. (Some (example_config\<lparr>Limits := (Limits example_config)\<lparr>KickLen := - 7\<rparr>\<rparr>), None)",
      OF refl refl h, THEN conjunct2, THEN iffD2, OF ok]
  note b = LoadConfig_limits
    [where ReadFile = "\<lambda>f. (''Limits: ...'', None)" and filename = "''ircd.yaml''"
      and data = "''Limits: ...''" and c = ?short and k = 300 and tab = "\<lambda>r. r"
      and Unmarshal = "\<lambda>d. (Some (?short\<lparr>Limits := (Limits ?short)\<lparr>KickLen := 300\<rparr>\<rparr>), None)",
      OF refl refl h', THEN conjunct1, THEN iffD2, OF bad]
  from a b show ?thesis by (intro conjI)
qed

lemma copy_password_eq:
  "copy_password c =
     (if Server_Password (Server c) \<noteq> ''''
      then c\<lparr>Server := (Server c)\<lparr>Server_PassConfig := \<lparr>Password = Server_Password (Server c)\<rparr>\<rparr>\<rparr>
      else c)"
  by (simp add: copy_password_def)

text \<open>
  Claim C7. The configuration that \<^verbatim>\<open>LoadConfig\<close> returns is the deserialized
  one, except that a non-empty \<^verbatim>\<open>Server.Password\<close> has been copied into
  \<^verbatim>\<open>Server.PassConfig.Password\<close>; with an empty \<^verbatim>\<open>Server.Password\<close> it is
  the deserialized configuration unchanged.
\<close>

theorem LoadConfig_copies_password_only:
  assumes "ReadFile filename = (data, None)" and "Unmarshal data = (Some c, None)"
    and "LoadConfig ReadFile Unmarshal tab filename = Inr (Some c', None)"
  shows "(Server_Password (Server c) \<noteq> '''' \<longrightarrow>
            c' = c\<lparr>Server := (Server c)\<lparr>Server_PassConfig :=
                   \<lparr>Password = Server_Password (Server c)\<rparr>\<rparr>\<rparr>)
       \<and> (Server_Password (Server c) = '''' \<longrightarrow> c' = c)"
proof -
  from LoadConfig_parsed [of ReadFile filename data Unmarshal c tab] assms
  have "c' = copy_password c"
    by (cases "first_violation tab c") simp_all
  then show ?thesis
    by (simp add: copy_password_eq)
qed

text \<open>
  The theorem at a document with a flat password, and at one with a nested password
  only.
\<close>

theorem LoadConfig_copies_password_only_witness:
  "LoadConfig (\<lambda>f. (''Server: ...'', None)) (\<lambda>d. (Some example_config, None)) (\<lambda>r. r)
       ''ircd.yaml''
     = Inr (Some (example_config\<lparr>Server := (Server example_config)\<lparr>Server_PassConfig :=
         \<lparr>Password = ''hunter2''\<rparr>\<rparr>\<rparr>), None)
   \<and> LoadConfig (\<lambda>f. (''Server: ...'', None))
       (\<lambda>d. (Some (example_config\<lparr>Server := (Server example_config)\<lparr>Server_PassConfig :=
         \<lparr>Password = ''JDJhJDA0''\<rparr>, Server_Password := ''''\<rparr>\<rparr>), None)) (\<lambda>r. r) ''ircd.yaml''
     = Inr (Some (example_config\<lparr>Server := (Server example_config)\<lparr>Server_PassConfig :=
         \<lparr>Password = ''JDJhJDA0''\<rparr>, Server_Password := ''''\<rparr>\<rparr>), None)"
proof -
  let ?rf = "\<lambda>f :: string. (''Server: ...'', None :: error option)"
  let ?c2 = "example_config\<lparr>Server := (Server example_config)\<lparr>Server_PassConfig :=
         \<lparr>Password = ''JDJhJDA0''\<rparr>, Server_Password := ''''\<rparr>\<rparr>"
  have v1: "first_violation (\<lambda>r. r) example_config = None"
    by (simp add: first_violation_def invariant_checks_def example_config_def example_hostname)
  have v2: "first_violation (\<lambda>r. r) ?c2 = None"
    by (simp add: first_violation_def invariant_checks_def example_config_def example_hostname)
  have r1: "LoadConfig ?rf (\<lambda>d. (Some example_config, None)) (\<lambda>r. r) ''ircd.yaml''
      = Inr (Some (copy_password example_config), None)"
    using LoadConfig_parsed [of ?rf "''ircd.yaml''" "''Server: ...''"
      "\<lambda>d. (Some example_config, None)" example_config "\<lambda>r. r"] v1 by simp
  have r2: "LoadConfig ?rf (\<lambda>d. (Some ?c2, None)) (\<lambda>r. r) ''ircd.yaml''
      = Inr (Some (copy_password ?c2), None)"
    using LoadConfig_parsed [of ?rf "''ircd.yaml''" "''Server: ...''"
      "\<lambda>d. (Some ?c2, None)" ?c2 "\<lambda>r. r"] v2 by simp
  have p1: "Server_Password (Server example_config) = ''hunter2''"
    and p2: "Server_Password (Server ?c2) = ''''"
    by (simp_all add: example_config_def)
  have "copy_password example_config = example_config\<lparr>Server := (Server example_config)
      \<lparr>Server_PassConfig := \<lparr>Password = Server_Password (Server example_config)\<rparr>\<rparr>\<rparr>"
    using LoadConfig_copies_password_only
      [where ReadFile = ?rf and filename = "''ircd.yaml''" and data = "''Server: ...''"
        and Unmarshal = "\<lambda>d. (Some example_config, None)" and c = example_config
        and tab = "\<lambda>r. r" and c' = "copy_password example_config", OF refl refl r1]
    by (simp add: p1)
  moreover have "copy_password ?c2 = ?c2"
    using LoadConfig_copies_password_only
      [where ReadFile = ?rf and filename = "''ircd.yaml''" and data = "''Server: ...''"
        and Unmarshal = "\<lambda>d. (Some ?c2, None)" and c = ?c2
        and tab = "\<lambda>r. r" and c' = "copy_password ?c2", OF refl refl r2] p2
    by blast
  ultimately show ?thesis
    using r1 r2 by (simp add: p1)
qed

text \<open>
  Claim C8. Whenever \<^verbatim>\<open>LoadConfig\<close> returns an error the configuration it returns
  is nil, and whenever it returns no error the configuration is not nil. A read failure,
  a deserialization failure and a violated invariant each return nil and the error. A
  configuration is returned exactly when the file is read, the document deserialized
  and every invariant holds.
\<close>

theorem LoadConfig_config_or_error:
  "(\<forall>cfg e. LoadConfig ReadFile Unmarshal tab filename = Inr (cfg, Some e) \<longrightarrow> cfg = None)
   \<and> (\<forall>cfg. LoadConfig ReadFile Unmarshal tab filename = Inr (cfg, None) \<longrightarrow> cfg \<noteq> None)
   \<and> (\<forall>data e. ReadFile filename = (data, Some e) \<longrightarrow>
         LoadConfig ReadFile Unmarshal tab filename = Inr (None, Some e))
   \<and> (\<forall>data cfg e. ReadFile filename = (data, None) \<and> Unmarshal data = (cfg, Some e) \<longrightarrow>
         LoadConfig ReadFile Unmarshal tab filename = Inr (None, Some e))
   \<and> (\<forall>data c msg. ReadFile filename = (data, None) \<and> Unmarshal data = (Some c, None)
         \<and> first_violation tab c = Some msg \<longrightarrow>
         LoadConfig ReadFile Unmarshal tab filename = Inr (None, Some (Error msg)))
   \<and> ((\<exists>c'. LoadConfig ReadFile Unmarshal tab filename = Inr (Some c', None)) \<longleftrightarrow>
        (\<exists>data c. ReadFile filename = (data, None) \<and> Unmarshal data = (Some c, None)
           \<and> (\<forall>(ok, msg) \<in> set (invariant_checks tab c). ok)))"
proof -
  let ?L = "LoadConfig ReadFile Unmarshal tab filename"
  have parsed: "?L = (case first_violation tab c of
       Some msg \<Rightarrow> Inr (None, Some (Error msg))
     | None \<Rightarrow> Inr (Some (copy_password c), None))"
    if "ReadFile filename = (data, None)" and "Unmarshal data = (Some c, None)" for data c
    using that by (rule LoadConfig_parsed)
  have outcome: "?L = Inl NilPointerDereference \<or> (\<exists>e. ?L = Inr (None, Some e))
      \<or> (\<exists>data c. ReadFile filename = (data, None) \<and> Unmarshal data = (Some c, None)
            \<and> first_violation tab c = None \<and> ?L = Inr (Some (copy_password c), None))"
  proof -
    from LoadConfig_cases [of ReadFile filename Unmarshal tab]
    consider "?L = Inl NilPointerDereference" | "\<exists>e. ?L = Inr (None, Some e)"
      | data c where "ReadFile filename = (data, None)" and "Unmarshal data = (Some c, None)"
      by blast
    then show ?thesis
    proof cases
      case 1
      then show ?thesis by simp
    next
      case 2
      then show ?thesis by simp
    next
      case 3
      show ?thesis
      proof (cases "first_violation tab c")
        case None
        with 3 parsed [OF 3] show ?thesis by auto
      next
        case (Some msg)
        with parsed [OF 3] show ?thesis by simp
      qed
    qed
  qed
  have 1: "\<forall>cfg e. ?L = Inr (cfg, Some e) \<longrightarrow> cfg = None"
    using outcome by auto
  have 2: "\<forall>cfg. ?L = Inr (cfg, None) \<longrightarrow> cfg \<noteq> None"
    using outcome by auto
  have 3: "\<forall>data e. ReadFile filename = (data, Some e) \<longrightarrow> ?L = Inr (None, Some e)"
    by (simp add: LoadConfig_def)
  have 4: "\<forall>data cfg e. ReadFile filename = (data, None) \<and> Unmarshal data = (cfg, Some e) \<longrightarrow>
      ?L = Inr (None, Some e)"
    by (simp add: LoadConfig_def)
  have 5: "\<forall>data c msg. ReadFile filename = (data, None) \<and> Unmarshal data = (Some c, None)
      \<and> first_violation tab c = Some msg \<longrightarrow> ?L = Inr (None, Some (Error msg))"
    using parsed by auto
  have 6: "(\<exists>c'. ?L = Inr (Some c', None)) \<longleftrightarrow>
        (\<exists>data c. ReadFile filename = (data, None) \<and> Unmarshal data = (Some c, None)
           \<and> (\<forall>(ok, msg) \<in> set (invariant_checks tab c). ok))"
  proof
    assume "\<exists>c'. ?L = Inr (Some c', None)"
    with outcome show "\<exists>data c. ReadFile filename = (data, None) \<and> Unmarshal data = (Some c, None)
           \<and> (\<forall>(ok, msg) \<in> set (invariant_checks tab c). ok)"
      unfolding first_violation_None_iff [symmetric] by auto
  next
    assume "\<exists>data c. ReadFile filename = (data, None) \<and> Unmarshal data = (Some c, None)
           \<and> (\<forall>(ok, msg) \<in> set (invariant_checks tab c). ok)"
    then obtain data c where "ReadFile filename = (data, None)" "Unmarshal data = (Some c, None)"
      and "first_violation tab c = None"
      unfolding first_violation_None_iff [symmetric] by blast
    with parsed [of data c] show "\<exists>c'. ?L = Inr (Some c', None)" by simp
  qed
  from 1 2 3 4 5 6 show ?thesis by blast
qed

text \<open>
  The theorem at a missing file, at a malformed document and at a document without
  \<^verbatim>\<open>Network.Name\<close>.
\<close>

theorem LoadConfig_config_or_error_witness:
  "LoadConfig (\<lambda>f. ('''', Some (Error ''open ircd.yaml: no such file or directory'')))
       (\<lambda>d. (None, None)) (\<lambda>r. r) ''ircd.yaml''
     = Inr (None, Some (Error ''open ircd.yaml: no such file or directory''))
   \<and> LoadConfig (\<lambda>f. (''Server: ['', None))
       (\<lambda>d. (None, Some (Error ''yaml: line 1: did not find expected node content'')))
       (\<lambda>r. r) ''ircd.yaml''
     = Inr (None, Some (Error ''yaml: line 1: did not find expected node content''))
   \<and> LoadConfig (\<lambda>f. (''Server: ...'', None))
       (\<lambda>d. (Some (example_config\<lparr>Network := \<lparr>Network_Name = ''''\<rparr>\<rparr>), None))
       (\<lambda>r. r) ''ircd.yaml''
     = Inr (None, Some (Error ''Network name missing''))"
proof -
  let ?c = "example_config\<lparr>Network := \<lparr>Network_Name = ''''\<rparr>\<rparr>"
  have v: "first_violation (\<lambda>r. r) ?c = Some ''Network name missing''"
    by (simp add: first_violation_def invariant_checks_def)
  note all = LoadConfig_config_or_error
  note a = all
    [where ReadFile = "\<lambda>f. ('''', Some (Error ''open ircd.yaml: no such file or directory''))"
      and Unmarshal = "\<lambda>d. (None, None)" and tab = "\<lambda>r. r" and filename = "''ircd.yaml''",
      THEN conjunct2, THEN conjunct2, THEN conjunct1, rule_format, OF refl]
  note b = all
    [where ReadFile = "\<lambda>f. (''Server: ['', None)"
      and Unmarshal = "\<lambda>d. (None, Some (Error ''yaml: line 1: did not find expected node content''))"
      and tab = "\<lambda>r. r" and filename = "''ircd.yaml''",
      THEN conjunct2, THEN conjunct2, THEN conjunct2, THEN conjunct1, rule_format,
      OF conjI, OF refl refl]
  note c = all
    [where ReadFile = "\<lambda>f. (''Server: ...'', None)"
      and Unmarshal = "\<lambda>d. (Some ?c, None)" and tab = "\<lambda>r. r" and filename = "''ircd.yaml''",
      THEN conjunct2, THEN conjunct2, THEN conjunct2, THEN conjunct2, THEN conjunct1,
      rule_format, OF conjI, OF refl conjI, OF refl v]
  from a b c show ?thesis by (intro conjI)
qed

section \<open>Properties of the derived maps\<close>

subsection \<open>The operator map\<close>

lemma Operators_loop_entries:
  assumes "Operators_loop cf dp es (m, lg) = Inr (m', lg')" and "m' k = Some v"
  shows "m k = Some v \<or>
    (\<exists>n pc. (n, pc) \<in> set es \<and> cf n = (k, None) \<and> PasswordBytes dp pc = Inr v)"
  using assms
proof (induction es arbitrary: m lg)
  case Nil
  then show ?case by simp
next
  case (Cons e es)
  obtain n pc where e: "e = (n, pc)" by (cases e)
  obtain n' err where cf: "cf n = (n', err)" by (cases "cf n")
  show ?case
  proof (cases err)
    case (Some x)
    with Cons.prems e cf
    have "Operators_loop cf dp es (m, lg @ [''Could not casefold oper name: '' @ error_message x])
        = Inr (m', lg')"
      by simp
    from Cons.IH [OF this Cons.prems(2)] show ?thesis by auto
  next
    case None
    show ?thesis
    proof (cases "PasswordBytes dp pc")
      case (Inl a)
      with Cons.prems e cf None show ?thesis by simp
    next
      case (Inr bytes)
      with Cons.prems e cf None
      have "Operators_loop cf dp es (m(n' \<mapsto> bytes), lg) = Inr (m', lg')"
        by simp
      from Cons.IH [OF this Cons.prems(2)]
      show ?thesis
        using e cf None Inr by (auto split: if_splits)
    qed
  qed
qed

lemma Operators_loop_payload:
  assumes "list_all2 (\<lambda>(n, pc) (n', pc'). n = n' \<and>
      (snd (cf n) = None \<longrightarrow> PasswordBytes dp pc = PasswordBytes dp' pc')) es es'"
  shows "Operators_loop cf dp es st = Operators_loop cf dp' es' st"
  using assms
proof (induction es es' arbitrary: st rule: list_all2_induct)
  case Nil
  show ?case by simp
next
  case (Cons e es e' es')
  obtain n pc where e: "e = (n, pc)" by (cases e)
  obtain pc' where e': "e' = (n, pc')" using Cons.hyps(1) e by (cases e') auto
  obtain m lg where st: "st = (m, lg)" by (cases st)
  obtain n' err where cf: "cf n = (n', err)" by (cases "cf n")
  show ?case
  proof (cases err)
    case None
    with Cons.hyps(1) e e' cf have "PasswordBytes dp pc = PasswordBytes dp' pc'" by simp
    with e e' st cf None Cons.IH show ?thesis by (simp split: sum.splits)
  next
    case (Some x)
    with e e' st cf Cons.IH show ?thesis by simp
  qed
qed

lemma Operators_loop_filter:
  "map_sum id fst (Operators_loop cf dp es (m, lg)) =
   map_sum id fst (Operators_loop cf dp (filter (\<lambda>(n, pc). snd (cf n) = None) es) (m, lg'))"
proof (induction es arbitrary: m lg lg')
  case Nil
  show ?case by simp
next
  case (Cons e es)
  obtain n pc where e: "e = (n, pc)" by (cases e)
  obtain n' err where cf: "cf n = (n', err)" by (cases "cf n")
  show ?case
  proof (cases err)
    case None
    with e cf Cons.IH show ?thesis by (simp split: sum.splits)
  next
    case (Some x)
    with e cf Cons.IH show ?thesis by simp
  qed
qed

subsection \<open>The listener map\<close>

lemma TLSListenConfig_Config_cases:
  "TLSListenConfig_Config lp (Some conf) =
     (if snd (lp (Cert conf) (Key conf)) \<noteq> None
      then Inr (None, Some (Error ''tls cert+key: invalid pair''))
      else Inr (Some \<lparr>Certificates = [fst (lp (Cert conf) (Key conf))]\<rparr>, None))"
  by (cases "lp (Cert conf) (Key conf)") (simp add: TLSListenConfig_Config_def)

lemma TLSListenConfig_Config_ok:
  "TLSListenConfig_Config lp c = Inr (cfg, None) \<longleftrightarrow>
     (\<exists>tc cert. c = Some tc \<and> lp (Cert tc) (Key tc) = (cert, None)
        \<and> cfg = Some \<lparr>Certificates = [cert]\<rparr>)"
proof (cases c)
  case None
  then show ?thesis by (simp add: TLSListenConfig_Config_def)
next
  case (Some tc)
  then show ?thesis
    by (cases "lp (Cert tc) (Key tc)") (auto simp: TLSListenConfig_Config_def)
qed

lemma TLSListeners_loop_step:
  "TLSListeners_loop lp cf ((s, c) # rest) (m, lg) =
     (case c of
        None \<Rightarrow> Inl NilPointerDereference
      | Some tc \<Rightarrow>
          (case lp (Cert tc) (Key tc) of
             (cert, Some e) \<Rightarrow> Inl (Fatal ''tls cert+key: invalid pair'')
           | (cert, None) \<Rightarrow>
               (case cf s of
                  (name, None) \<Rightarrow>
                    TLSListeners_loop lp cf rest (m(name \<mapsto> Some \<lparr>Certificates = [cert]\<rparr>), lg)
                | (name, Some err) \<Rightarrow>
                    TLSListeners_loop lp cf rest
                      (m, lg @ [''Could not casefold TLS listener: '' @ error_message err]))))"
  by (simp add: TLSListenConfig_Config_def split: option.splits prod.splits)

declare TLSListeners_loop.simps(2) [simp del]

lemma TLSListeners_loop_entries:
  assumes "TLSListeners_loop lp cf es (m, lg) = Inr (m', lg')" and "m' k = Some v"
  shows "m k = Some v \<or>
    (\<exists>n tc cert. (n, Some tc) \<in> set es \<and> cf n = (k, None) \<and>
       lp (Cert tc) (Key tc) = (cert, None) \<and> v = Some \<lparr>Certificates = [cert]\<rparr>)"
  using assms
proof (induction es arbitrary: m lg)
  case Nil
  then show ?case by simp
next
  case (Cons e es)
  obtain s c where e: "e = (s, c)" by (cases e)
  from Cons.prems(1) e obtain tc cert where c: "c = Some tc"
    and lp: "lp (Cert tc) (Key tc) = (cert, None)"
    by (auto simp: TLSListeners_loop_step split: option.splits prod.splits)
  obtain name err where cf: "cf s = (name, err)" by (cases "cf s")
  show ?case
  proof (cases err)
    case None
    with Cons.prems(1) e c lp cf
    have "TLSListeners_loop lp cf es (m(name \<mapsto> Some \<lparr>Certificates = [cert]\<rparr>), lg) = Inr (m', lg')"
      by (simp add: TLSListeners_loop_step)
    from Cons.IH [OF this Cons.prems(2)] show ?thesis
      using e c lp cf None by (auto split: if_splits)
  next
    case (Some x)
    with Cons.prems(1) e c lp cf
    have "TLSListeners_loop lp cf es
        (m, lg @ [''Could not casefold TLS listener: '' @ error_message x]) = Inr (m', lg')"
      by (simp add: TLSListeners_loop_step)
    from Cons.IH [OF this Cons.prems(2)] show ?thesis by auto
  qed
qed

lemma TLSListeners_loop_returns_iff:
  "(\<exists>r. TLSListeners_loop lp cf es st = Inr r) \<longleftrightarrow>
     (\<forall>(s, c) \<in> set es. \<exists>tc cert. c = Some tc \<and> lp (Cert tc) (Key tc) = (cert, None))"
proof (induction es arbitrary: st)
  case Nil
  show ?case by simp
next
  case (Cons e es)
  obtain s c where e: "e = (s, c)" by (cases e)
  obtain m lg where st: "st = (m, lg)" by (cases st)
  show ?case
  proof (cases c)
    case None
    with e st show ?thesis by (simp add: TLSListeners_loop_step)
  next
    case (Some tc)
    obtain cert err where lp: "lp (Cert tc) (Key tc) = (cert, err)"
      by (cases "lp (Cert tc) (Key tc)")
    obtain name cerr where cf: "cf s = (name, cerr)" by (cases "cf s")
    show ?thesis
    proof (cases err)
      case None
      show ?thesis
        using e st Some lp None cf Cons.IH
        by (cases cerr) (simp_all add: TLSListeners_loop_step)
    next
      case (Some x)
      with e st \<open>c = Some tc\<close> lp show ?thesis by (simp add: TLSListeners_loop_step)
    qed
  qed
qed

lemma TLSListeners_loop_filter:
  assumes "TLSListeners_loop lp cf es (m, lg) = Inr (m', lg')"
  shows "\<exists>lg''. TLSListeners_loop lp cf (filter (\<lambda>(n, c). snd (cf n) = None) es) (m, lg0)
    = Inr (m', lg'')"
  using assms
proof (induction es arbitrary: m lg lg0)
  case Nil
  then show ?case by simp
next
  case (Cons e es)
  obtain s c where e: "e = (s, c)" by (cases e)
  from Cons.prems(1) e obtain tc cert where c: "c = Some tc"
    and lp: "lp (Cert tc) (Key tc) = (cert, None)"
    by (auto simp: TLSListeners_loop_step split: option.splits prod.splits)
  obtain name err where cf: "cf s = (name, err)" by (cases "cf s")
  show ?case
  proof (cases err)
    case None
    with Cons.prems(1) e c lp cf
    have "TLSListeners_loop lp cf es (m(name \<mapsto> Some \<lparr>Certificates = [cert]\<rparr>), lg) = Inr (m', lg')"
      by (simp add: TLSListeners_loop_step)
    from Cons.IH [OF this, of lg0] obtain lg'' where
      "TLSListeners_loop lp cf (filter (\<lambda>(n, c). snd (cf n) = None) es)
         (m(name \<mapsto> Some \<lparr>Certificates = [cert]\<rparr>), lg0) = Inr (m', lg'')"
      by blast
    then have "TLSListeners_loop lp cf (filter (\<lambda>(n, c). snd (cf n) = None) (e # es)) (m, lg0)
        = Inr (m', lg'')"
      using e c lp cf None by (simp add: TLSListeners_loop_step)
    then show ?thesis by blast
  next
    case (Some x)
    with Cons.prems(1) e c lp cf
    have "TLSListeners_loop lp cf es
        (m, lg @ [''Could not casefold TLS listener: '' @ error_message x]) = Inr (m', lg')"
      by (simp add: TLSListeners_loop_step)
    from Cons.IH [OF this, of lg0] show ?thesis
      using e cf Some by simp
  qed
qed

subsection \<open>Claims on the derived maps\<close>

text \<open>
  Claim C5. Every key of the maps returned by \<^verbatim>\<open>Operators\<close> and
  \<^verbatim>\<open>TLSListeners\<close> is the canonical form of a source name whose canonicalization
  succeeded. A name that fails canonicalization is only skipped: \<^verbatim>\<open>Operators\<close>
  returns the same map, or aborts in the same way, as on the source map without these
  entries; \<^verbatim>\<open>TLSListeners\<close>, when it returns, returns the same map as without
  them, and whether it returns depends on the key pairs only, never on a
  canonicalization.
\<close>

theorem derived_maps_skip_failed_names:
  "(\<forall>m lg k v. Operators cf dp conf = Inr (m, lg) \<and> m k = Some v \<longrightarrow>
       (\<exists>n pc. (n, pc) \<in> set (Operator conf) \<and> cf n = (k, None)))
   \<and> (\<forall>m lg k v. TLSListeners lp cf conf = Inr (m, lg) \<and> m k = Some v \<longrightarrow>
       (\<exists>n c. (n, c) \<in> set (Server_TLSListeners (Server conf)) \<and> cf n = (k, None)))
   \<and> map_sum id fst (Operators cf dp conf) =
       map_sum id fst (Operators cf dp
         (conf\<lparr>Operator := filter (\<lambda>(n, pc). snd (cf n) = None) (Operator conf)\<rparr>))
   \<and> (\<forall>m lg. TLSListeners lp cf conf = Inr (m, lg) \<longrightarrow>
       (\<exists>lg'. TLSListeners lp cf
          (conf\<lparr>Server := (Server conf)\<lparr>Server_TLSListeners :=
             filter (\<lambda>(n, c). snd (cf n) = None) (Server_TLSListeners (Server conf))\<rparr>\<rparr>)
          = Inr (m, lg')))
   \<and> ((\<exists>r. TLSListeners lp cf conf = Inr r) \<longleftrightarrow>
       (\<forall>(n, c) \<in> set (Server_TLSListeners (Server conf)).
          \<exists>cfg. TLSListenConfig_Config lp c = Inr (cfg, None)))"
proof (intro conjI allI impI)
  fix m lg k v
  assume "Operators cf dp conf = Inr (m, lg) \<and> m k = Some v"
  then show "\<exists>n pc. (n, pc) \<in> set (Operator conf) \<and> cf n = (k, None)"
    using Operators_loop_entries [of cf dp "Operator conf" Map.empty "[]" m lg k v]
    by (auto simp: Operators_def)
next
  fix m lg k v
  assume "TLSListeners lp cf conf = Inr (m, lg) \<and> m k = Some v"
  then show "\<exists>n c. (n, c) \<in> set (Server_TLSListeners (Server conf)) \<and> cf n = (k, None)"
    using TLSListeners_loop_entries
      [of lp cf "Server_TLSListeners (Server conf)" Map.empty "[]" m lg k v]
    by (auto simp: TLSListeners_def)
next
  show "map_sum id fst (Operators cf dp conf) =
       map_sum id fst (Operators cf dp
         (conf\<lparr>Operator := filter (\<lambda>(n, pc). snd (cf n) = None) (Operator conf)\<rparr>))"
    using Operators_loop_filter [of cf dp "Operator conf" Map.empty "[]" "[]"]
    by (simp add: Operators_def)
next
  fix m lg
  assume "TLSListeners lp cf conf = Inr (m, lg)"
  then show "\<exists>lg'. TLSListeners lp cf
          (conf\<lparr>Server := (Server conf)\<lparr>Server_TLSListeners :=
             filter (\<lambda>(n, c). snd (cf n) = None) (Server_TLSListeners (Server conf))\<rparr>\<rparr>)
          = Inr (m, lg')"
    using TLSListeners_loop_filter
      [of lp cf "Server_TLSListeners (Server conf)" Map.empty "[]" m lg "[]"]
    by (simp add: TLSListeners_def)
next
  show "(\<exists>r. TLSListeners lp cf conf = Inr r) \<longleftrightarrow>
       (\<forall>(n, c) \<in> set (Server_TLSListeners (Server conf)).
          \<exists>cfg. TLSListenConfig_Config lp c = Inr (cfg, None))"
    unfolding TLSListeners_def TLSListeners_loop_returns_iff TLSListenConfig_Config_ok
    by blast
qed

text \<open>
  The order of the steps in the two resolvers. \<^verbatim>\<open>Operators\<close> canonicalizes the name
  first and decodes the secret only if that succeeds: neither the entry nor the decoder
  matters for a name that fails canonicalization. \<^verbatim>\<open>TLSListeners\<close> builds the TLS
  configuration of every entry before it canonicalizes the name: when it returns, the key
  pair of every entry has been loaded, also of the entries whose names fail
  canonicalization.
\<close>

theorem resolvers_order_of_steps:
  "(list_all2 (\<lambda>(n, pc) (n', pc'). n = n' \<and>
        (snd (cf n) = None \<longrightarrow> PasswordBytes dp pc = PasswordBytes dp' pc'))
      (Operator conf) (Operator conf') \<longrightarrow>
      Operators cf dp conf = Operators cf dp' conf')
   \<and> (\<forall>r. TLSListeners lp cf conf = Inr r \<longrightarrow>
        (\<forall>(s, c) \<in> set (Server_TLSListeners (Server conf)).
           \<exists>tc cert. c = Some tc \<and> lp (Cert tc) (Key tc) = (cert, None)))"
proof (intro conjI allI impI)
  assume "list_all2 (\<lambda>(n, pc) (n', pc'). n = n' \<and>
        (snd (cf n) = None \<longrightarrow> PasswordBytes dp pc = PasswordBytes dp' pc'))
      (Operator conf) (Operator conf')"
  then show "Operators cf dp conf = Operators cf dp' conf'"
    unfolding Operators_def by (rule Operators_loop_payload)
next
  fix r
  assume "TLSListeners lp cf conf = Inr r"
  then have "\<exists>r. TLSListeners_loop lp cf (Server_TLSListeners (Server conf)) (Map.empty, []) = Inr r"
    by (auto simp: TLSListeners_def)
  then show "\<forall>(s, c) \<in> set (Server_TLSListeners (Server conf)).
           \<exists>tc cert. c = Some tc \<and> lp (Cert tc) (Key tc) = (cert, None)"
    by (simp only: TLSListeners_loop_returns_iff)
qed

text \<open>
  Claim C10. \<^verbatim>\<open>TLSListenConfig.Config\<close> either returns a nil configuration and the
  error \<^verbatim>\<open>tls cert+key: invalid pair\<close> (the pair did not load), or a nil error
  and a configuration whose certificates are exactly the loaded pair. Every value of the
  map returned by \<^verbatim>\<open>TLSListeners\<close> is a non-nil configuration with exactly one
  certificate, loaded from the files of an entry.
\<close>

theorem TLSListenConfig_Config_one_certificate:
  "(TLSListenConfig_Config lp (Some tc) = Inr (None, Some (Error ''tls cert+key: invalid pair''))
      \<and> snd (lp (Cert tc) (Key tc)) \<noteq> None
    \<or> TLSListenConfig_Config lp (Some tc) =
        Inr (Some \<lparr>Certificates = [fst (lp (Cert tc) (Key tc))]\<rparr>, None)
      \<and> snd (lp (Cert tc) (Key tc)) = None)
   \<and> (\<forall>m lg k v. TLSListeners lp cf conf = Inr (m, lg) \<and> m k = Some v \<longrightarrow>
        (\<exists>cfg cert. v = Some cfg \<and> Certificates cfg = [cert] \<and>
           (\<exists>n c. (n, Some c) \<in> set (Server_TLSListeners (Server conf))
              \<and> lp (Cert c) (Key c) = (cert, None))))"
proof (intro conjI allI impI)
  show "TLSListenConfig_Config lp (Some tc) = Inr (None, Some (Error ''tls cert+key: invalid pair''))
      \<and> snd (lp (Cert tc) (Key tc)) \<noteq> None
    \<or> TLSListenConfig_Config lp (Some tc) =
        Inr (Some \<lparr>Certificates = [fst (lp (Cert tc) (Key tc))]\<rparr>, None)
      \<and> snd (lp (Cert tc) (Key tc)) = None"
    by (simp add: TLSListenConfig_Config_cases)
next
  fix m lg k v
  assume "TLSListeners lp cf conf = Inr (m, lg) \<and> m k = Some v"
  then show "\<exists>cfg cert. v = Some cfg \<and> Certificates cfg = [cert] \<and>
           (\<exists>n c. (n, Some c) \<in> set (Server_TLSListeners (Server conf))
              \<and> lp (Cert c) (Key c) = (cert, None))"
    using TLSListeners_loop_entries
      [of lp cf "Server_TLSListeners (Server conf)" Map.empty "[]" m lg k v]
    by (fastforce simp: TLSListeners_def)
qed

lemma example_CasefoldName_values:
  "example_CasefoldName ''Dan'' = (''dan'', None)"
  "example_CasefoldName ''not a nick'' = ('''', Some (Error ''name is not allowed''))"
  "example_CasefoldName '':6697'' = ('':6697'', None)"
  "example_CasefoldName ''not a label'' = ('''', Some (Error ''name is not allowed''))"
  by code_simp+

lemma example_Operators:
  "Operators example_CasefoldName example_DecodePassword
     (example_config\<lparr>Operator :=
        [(''Dan'', Some \<lparr>Password = ''c2VjcmV0''\<rparr>), (''not a nick'', Some \<lparr>Password = ''%''\<rparr>)]\<rparr>)
   = Inr ([''dan'' \<mapsto> ''secret''], [''Could not casefold oper name: name is not allowed''])"
  by (simp add: Operators_def example_CasefoldName_values example_DecodePassword_def
      PasswordBytes_def)

lemma example_TLSListeners:
  "TLSListeners example_LoadX509KeyPair example_CasefoldName example_config
   = Inr (['':6697'' \<mapsto> Some \<lparr>Certificates = [''certificate of tls.crt'']\<rparr>], [])"
  by (simp add: TLSListeners_def example_config_def example_CasefoldName_values
      example_LoadX509KeyPair_def TLSListeners_loop_step)

text \<open>
  The theorem at an operator map with one name that canonicalizes and one that does
  not, and at the listener map of the example.
\<close>

theorem derived_maps_skip_failed_names_witness:
  "Operators example_CasefoldName example_DecodePassword
     (example_config\<lparr>Operator :=
        [(''Dan'', Some \<lparr>Password = ''c2VjcmV0''\<rparr>), (''not a nick'', Some \<lparr>Password = ''%''\<rparr>)]\<rparr>)
     = Inr ([''dan'' \<mapsto> ''secret''], [''Could not casefold oper name: name is not allowed''])
   \<and> (\<exists>n pc. (n, pc) \<in> set (Operator (example_config\<lparr>Operator :=
        [(''Dan'', Some \<lparr>Password = ''c2VjcmV0''\<rparr>), (''not a nick'', Some \<lparr>Password = ''%''\<rparr>)]\<rparr>))
          \<and> example_CasefoldName n = (''dan'', None))
   \<and> TLSListeners example_LoadX509KeyPair example_CasefoldName example_config
     = Inr (['':6697'' \<mapsto> Some \<lparr>Certificates = [''certificate of tls.crt'']\<rparr>], [])
   \<and> (\<exists>n c. (n, c) \<in> set (Server_TLSListeners (Server example_config))
          \<and> example_CasefoldName n = ('':6697'', None))"
proof -
  let ?c = "example_config\<lparr>Operator :=
        [(''Dan'', Some \<lparr>Password = ''c2VjcmV0''\<rparr>), (''not a nick'', Some \<lparr>Password = ''%''\<rparr>)]\<rparr>"
  note th = derived_maps_skip_failed_names
    [where cf = example_CasefoldName and dp = example_DecodePassword and conf = ?c
      and lp = example_LoadX509KeyPair]
  note th' = derived_maps_skip_failed_names
    [where cf = example_CasefoldName and dp = example_DecodePassword and conf = example_config
      and lp = example_LoadX509KeyPair]
  have "[''dan'' \<mapsto> ''secret''] ''dan'' = Some ''secret''"
    by simp
  with example_Operators th [THEN conjunct1]
  have a: "\<exists>n pc. (n, pc) \<in> set (Operator ?c) \<and> example_CasefoldName n = (''dan'', None)"
    by blast
  have "['':6697'' \<mapsto> Some \<lparr>Certificates = [''certificate of tls.crt'']\<rparr>] '':6697''
      = Some (Some \<lparr>Certificates = [''certificate of tls.crt'']\<rparr>)"
    by simp
  with example_TLSListeners th' [THEN conjunct2, THEN conjunct1]
  have b: "\<exists>n c. (n, c) \<in> set (Server_TLSListeners (Server example_config))
      \<and> example_CasefoldName n = ('':6697'', None)"
    by blast
  from example_Operators a example_TLSListeners b show ?thesis
    by (intro conjI)
qed

text \<open>
  Claim C6 says that both resolvers canonicalize the name first, so that an entry whose
  name fails canonicalization is skipped without its material being loaded and can never
  trigger a construction failure. \<^verbatim>\<open>Operators\<close> does so; \<^verbatim>\<open>TLSListeners\<close> logs
  and skips such an entry too, but only after it has loaded the key pair and aborted on
  its failure. The only listener below has a name that fails canonicalization, and the
  failure to load its pair (or a nil entry) aborts the call.
\<close>

theorem TLSListeners_loads_before_canonicalizing:
  "example_CasefoldName ''not a label'' = ('''', Some (Error ''name is not allowed''))
   \<and> TLSListeners example_LoadX509KeyPair example_CasefoldName
       (example_config\<lparr>Server := (Server example_config)\<lparr>Server_TLSListeners :=
          [(''not a label'', Some \<lparr>Cert = ''missing.crt'', Key = ''missing.key''\<rparr>)]\<rparr>\<rparr>)
     = Inl (Fatal ''tls cert+key: invalid pair'')
   \<and> TLSListeners example_LoadX509KeyPair example_CasefoldName
       (example_config\<lparr>Server := (Server example_config)\<lparr>Server_TLSListeners :=
          [(''not a label'', None)]\<rparr>\<rparr>)
     = Inl NilPointerDereference"
  by (simp add: TLSListeners_def example_CasefoldName_values example_LoadX509KeyPair_def
      TLSListeners_loop_step)

lemma example_TLSListeners_skipped:
  "TLSListeners example_LoadX509KeyPair example_CasefoldName
     (example_config\<lparr>Server := (Server example_config)\<lparr>Server_TLSListeners :=
        [(''not a label'', Some \<lparr>Cert = ''tls.crt'', Key = ''tls.key''\<rparr>)]\<rparr>\<rparr>)
   = Inr (Map.empty, [''Could not casefold TLS listener: name is not allowed''])"
  by (simp add: TLSListeners_def example_CasefoldName_values example_LoadX509KeyPair_def
      TLSListeners_loop_step)

text \<open>
  The theorem at two operator maps that differ in the entry of a name that fails
  canonicalization (a secret that does not decode, a nil entry), and at a listener whose
  name fails canonicalization and whose key pair loads.
\<close>

theorem resolvers_order_of_steps_witness:
  "Operators example_CasefoldName example_DecodePassword
     (example_config\<lparr>Operator :=
        [(''Dan'', Some \<lparr>Password = ''c2VjcmV0''\<rparr>), (''not a nick'', Some \<lparr>Password = ''%''\<rparr>)]\<rparr>)
   = Operators example_CasefoldName example_DecodePassword
     (example_config\<lparr>Operator :=
        [(''Dan'', Some \<lparr>Password = ''c2VjcmV0''\<rparr>), (''not a nick'', None)]\<rparr>)
   \<and> example_CasefoldName ''not a label'' = ('''', Some (Error ''name is not allowed''))
   \<and> (\<exists>tc cert. Some \<lparr>Cert = ''tls.crt'', Key = ''tls.key''\<rparr> = Some tc
         \<and> example_LoadX509KeyPair (Cert tc) (Key tc) = (cert, None))"
proof -
  let ?c = "example_config\<lparr>Operator :=
        [(''Dan'', Some \<lparr>Password = ''c2VjcmV0''\<rparr>), (''not a nick'', Some \<lparr>Password = ''%''\<rparr>)]\<rparr>"
  let ?c' = "example_config\<lparr>Operator :=
        [(''Dan'', Some \<lparr>Password = ''c2VjcmV0''\<rparr>), (''not a nick'', None)]\<rparr>"
  let ?t = "example_config\<lparr>Server := (Server example_config)\<lparr>Server_TLSListeners :=
        [(''not a label'', Some \<lparr>Cert = ''tls.crt'', Key = ''tls.key''\<rparr>)]\<rparr>\<rparr>"
  have rel: "list_all2 (\<lambda>(n, pc) (n', pc'). n = n' \<and>
        (snd (example_CasefoldName n) = None \<longrightarrow>
           PasswordBytes example_DecodePassword pc = PasswordBytes example_DecodePassword pc'))
      (Operator ?c) (Operator ?c')"
    by (simp add: example_CasefoldName_values)
  note a = resolvers_order_of_steps
    [where cf = example_CasefoldName and dp = example_DecodePassword
      and dp' = example_DecodePassword and conf = ?c and conf' = ?c'
      and lp = example_LoadX509KeyPair, THEN conjunct1, rule_format, OF rel]
  have mem: "(''not a label'', Some \<lparr>Cert = ''tls.crt'', Key = ''tls.key''\<rparr>)
      \<in> set (Server_TLSListeners (Server ?t))"
    by simp
  from resolvers_order_of_steps
    [where cf = example_CasefoldName and conf = ?t
      and lp = example_LoadX509KeyPair, THEN conjunct2, rule_format,
      OF example_TLSListeners_skipped mem]
  have b: "\<exists>tc cert. Some \<lparr>Cert = ''tls.crt'', Key = ''tls.key''\<rparr> = Some tc
         \<and> example_LoadX509KeyPair (Cert tc) (Key tc) = (cert, None)"
    by simp
  have n: "example_CasefoldName ''not a label'' = ('''', Some (Error ''name is not allowed''))"
    by (rule example_CasefoldName_values)
  from a n b show ?thesis by (intro conjI)
qed

text \<open>
  The theorem at a pair that loads, at a pair that does not, and at the listener map of
  the example.
\<close>

theorem TLSListenConfig_Config_one_certificate_witness:
  "TLSListenConfig_Config example_LoadX509KeyPair (Some \<lparr>Cert = ''tls.crt'', Key = ''tls.key''\<rparr>)
     = Inr (Some \<lparr>Certificates = [''certificate of tls.crt'']\<rparr>, None)
   \<and> TLSListenConfig_Config example_LoadX509KeyPair
       (Some \<lparr>Cert = ''missing.crt'', Key = ''missing.key''\<rparr>)
     = Inr (None, Some (Error ''tls cert+key: invalid pair''))
   \<and> (\<exists>cfg cert. Some \<lparr>Certificates = [''certificate of tls.crt'']\<rparr> = Some cfg
         \<and> Certificates cfg = [cert])"
proof -
  note th = TLSListenConfig_Config_one_certificate
    [where lp = example_LoadX509KeyPair and cf = example_CasefoldName and conf = example_config]
  have ok: "example_LoadX509KeyPair ''tls.crt'' ''tls.key'' = (''certificate of tls.crt'', None)"
    and bad: "example_LoadX509KeyPair ''missing.crt'' ''missing.key''
      = ('''', Some (Error ''open: no such file or directory''))"
    by (simp_all add: example_LoadX509KeyPair_def)
  from th [where tc = "\<lparr>Cert = ''tls.crt'', Key = ''tls.key''\<rparr>", THEN conjunct1] ok
  have a: "TLSListenConfig_Config example_LoadX509KeyPair
      (Some \<lparr>Cert = ''tls.crt'', Key = ''tls.key''\<rparr>)
     = Inr (Some \<lparr>Certificates = [''certificate of tls.crt'']\<rparr>, None)"
    by simp
  from th [where tc = "\<lparr>Cert = ''missing.crt'', Key = ''missing.key''\<rparr>", THEN conjunct1] bad
  have b: "TLSListenConfig_Config example_LoadX509KeyPair
       (Some \<lparr>Cert = ''missing.crt'', Key = ''missing.key''\<rparr>)
     = Inr (None, Some (Error ''tls cert+key: invalid pair''))"
    by simp
  have "['':6697'' \<mapsto> Some \<lparr>Certificates = [''certificate of tls.crt'']\<rparr>] '':6697''
      = Some (Some \<lparr>Certificates = [''certificate of tls.crt'']\<rparr>)"
    by simp
  with th [where tc = undefined, THEN conjunct2] example_TLSListeners
  have c: "\<exists>cfg cert. Some \<lparr>Certificates = [''certificate of tls.crt'']\<rparr> = Some cfg
         \<and> Certificates cfg = [cert]"
    by blast
  from a b c show ?thesis by (intro conjI)
qed


section \<open>Properties of the address resolver\<close>

text \<open>
  Claim C1 says that the original IP string is returned when the lookup returns no
  candidates. The code indexes the empty slice instead: with a lookup that returns no
  names and no error the call panics.
\<close>

theorem AddrLookupHostname_no_candidates:
  "AddrLookupHostname (\<lambda>hostport. (''192.0.2.7'', ''6667'', None)) (\<lambda>addr. ([], None)) tab
     \<lparr>Addr_Network = ''tcp'', Addr_String = ''192.0.2.7:6667''\<rparr>
   = Inl IndexOutOfRange"
  by (simp add: AddrLookupHostname_def LookupHostname_def IPString_def)

text \<open>
  What the resolver does when the lookup fails or names a first candidate: an address
  whose port cannot be split off is looked up as it is; a lookup error or a first
  candidate that is no hostname gives back the string that was looked up; a first
  candidate that is a hostname is returned; the candidates after the first are never
  read.
\<close>

theorem AddrLookupHostname_fallback:
  "AddrLookupHostname SplitHostPort LookupAddr tab addr =
     LookupHostname LookupAddr tab (IPString SplitHostPort addr)
   \<and> (\<forall>host port e. SplitHostPort (Addr_String addr) = (host, port, Some e) \<longrightarrow>
         IPString SplitHostPort addr = Addr_String addr)
   \<and> (\<forall>host port. SplitHostPort (Addr_String addr) = (host, port, None) \<longrightarrow>
         IPString SplitHostPort addr = host)
   \<and> (\<forall>names e. LookupAddr ip = (names, Some e) \<longrightarrow> LookupHostname LookupAddr tab ip = Inr ip)
   \<and> (\<forall>name0 rest. LookupAddr ip = (name0 # rest, None) \<and> \<not> IsHostname tab name0 \<longrightarrow>
         LookupHostname LookupAddr tab ip = Inr ip)
   \<and> (\<forall>name0 rest. LookupAddr ip = (name0 # rest, None) \<and> IsHostname tab name0 \<longrightarrow>
         LookupHostname LookupAddr tab ip = Inr name0)"
  by (simp add: AddrLookupHostname_def LookupHostname_def IPString_def)

text \<open>
  The theorem at a lookup with two candidates, at a lookup whose first candidate has no
  dot, and at the address of a Unix socket, which has no port and is no IP address.
\<close>

theorem AddrLookupHostname_fallback_witness:
  "AddrLookupHostname (\<lambda>hostport. (''192.0.2.7'', ''6667'', None))
     (\<lambda>addr. ([''client.example.net'', ''other.example.net''], None)) (\<lambda>r. r)
     \<lparr>Addr_Network = ''tcp'', Addr_String = ''192.0.2.7:6667''\<rparr>
   = Inr ''client.example.net''
   \<and> AddrLookupHostname (\<lambda>hostport. (''192.0.2.7'', ''6667'', None))
     (\<lambda>addr. ([''localhost''], None)) (\<lambda>r. r)
     \<lparr>Addr_Network = ''tcp'', Addr_String = ''192.0.2.7:6667''\<rparr>
   = Inr ''192.0.2.7''
   \<and> AddrLookupHostname (\<lambda>hostport. ('''', '''', Some (Error ''missing port in address'')))
     (\<lambda>addr. ([], Some (Error ''unrecognized address''))) (\<lambda>r. r)
     \<lparr>Addr_Network = ''unix'', Addr_String = ''/run/ergo.sock''\<rparr>
   = Inr ''/run/ergo.sock''"
proof -
  let ?shp = "\<lambda>hostport :: string. (''192.0.2.7'', ''6667'', None :: error option)"
  let ?bad = "\<lambda>hostport :: string. ('''', '''', Some (Error ''missing port in address''))"
  let ?tcp = "\<lparr>Addr_Network = ''tcp'', Addr_String = ''192.0.2.7:6667''\<rparr>"
  let ?unix = "\<lparr>Addr_Network = ''unix'', Addr_String = ''/run/ergo.sock''\<rparr>"
  let ?la1 = "\<lambda>addr :: string. ([''client.example.net'', ''other.example.net''], None :: error option)"
  let ?la2 = "\<lambda>addr :: string. ([''localhost''], None :: error option)"
  let ?la3 = "\<lambda>addr :: string. ([] :: string list, Some (Error ''unrecognized address''))"
  have h1: "IsHostname (\<lambda>r. r) ''client.example.net''"
    by code_simp
  have h2: "\<not> IsHostname (\<lambda>r. r) ''localhost''"
    by code_simp
  note t1 = AddrLookupHostname_fallback
    [where SplitHostPort = ?shp and LookupAddr = ?la1 and tab = "\<lambda>r. r" and addr = ?tcp
      and ip = "''192.0.2.7''"]
  note t2 = AddrLookupHostname_fallback
    [where SplitHostPort = ?shp and LookupAddr = ?la2 and tab = "\<lambda>r. r" and addr = ?tcp
      and ip = "''192.0.2.7''"]
  note t3 = AddrLookupHostname_fallback
    [where SplitHostPort = ?bad and LookupAddr = ?la3 and tab = "\<lambda>r. r" and addr = ?unix
      and ip = "''/run/ergo.sock''"]
  have ip: "IPString ?shp ?tcp = ''192.0.2.7''"
    using t1 by simp
  have ip': "IPString ?bad ?unix = ''/run/ergo.sock''"
    using t3 by simp
  have a: "AddrLookupHostname ?shp ?la1 (\<lambda>r. r) ?tcp = Inr ''client.example.net''"
    using t1 h1 unfolding ip by simp
  have b: "AddrLookupHostname ?shp ?la2 (\<lambda>r. r) ?tcp = Inr ''192.0.2.7''"
    using t2 h2 unfolding ip by simp
  have c: "AddrLookupHostname ?bad ?la3 (\<lambda>r. r) ?unix = Inr ''/run/ergo.sock''"
    using t3 unfolding ip' by simp
  from a b c show ?thesis by (intro conjI)
qed

end
